theory Spec2Isabelle
  imports Complex_Main "HOL-Library.Multiset"
begin

section \<open>Python values and errors\<close>

text \<open>
  The exceptions \<^verbatim>\<open>BCNN.py\<close> and the libraries under it can raise. A
  \<^verbatim>\<open>ValueError\<close> keeps its message, since the source tells its three
  configuration errors apart by it.
\<close>

datatype error =
    ValueError string
  | AssertionError
  | RuntimeError
  | IndexError
  | AttributeError
  | IOError
  | ZeroDivisionError

text \<open>
  Python's \<^verbatim>\<open>xs[i]\<close>: a negative index counts from the end, an index out of
  range raises \<^verbatim>\<open>IndexError\<close>.
\<close>

definition py_nth :: "'a list \<Rightarrow> int \<Rightarrow> error + 'a" where
  "py_nth xs i =
     (if 0 \<le> i \<and> i < int (length xs) then Inr (xs ! nat i)
      else if i < 0 \<and> - int (length xs) \<le> i then Inr (xs ! nat (int (length xs) + i))
      else Inl IndexError)"

text \<open>Python's \<^verbatim>\<open>xs[:-1]\<close> is \<^const>\<open>butlast\<close>, also on the empty list.\<close>

section \<open>Layers, parameters and the network\<close>

text \<open>
  The layer kinds of \<^verbatim>\<open>torch.nn\<close> that AlexNet is built from, with the
  constructor arguments that decide shapes: \<open>Conv2d in out kernel stride padding\<close>,
  \<open>MaxPool2d kernel stride\<close>, \<open>Linear in out\<close>.
\<close>

datatype layer =
    Conv2d nat nat nat nat nat
  | ReLU
  | MaxPool2d nat nat
  | Dropout
  | Linear nat nat

datatype slot = Weight | Bias

record param =
  slot :: slot
  requires_grad :: bool

record module =
  kind :: layer
  params :: "param list"

text \<open>
  A fresh layer: \<^verbatim>\<open>Conv2d\<close> and \<^verbatim>\<open>Linear\<close> own a weight and a bias, the
  other layers own nothing; a fresh parameter has \<^verbatim>\<open>requires_grad = True\<close>.
\<close>

definition new_param :: "slot \<Rightarrow> param" where
  "new_param s = \<lparr>slot = s, requires_grad = True\<rparr>"

fun new_module :: "layer \<Rightarrow> module" where
  "new_module (Conv2d i out k s p) =
     \<lparr>kind = Conv2d i out k s p, params = [new_param Weight, new_param Bias]\<rparr>"
| "new_module (Linear i out) =
     \<lparr>kind = Linear i out, params = [new_param Weight, new_param Bias]\<rparr>"
| "new_module l = \<lparr>kind = l, params = []\<rparr>"

text \<open>
  \<^verbatim>\<open>torchvision.models.alexnet\<close> is a library the source calls; its two layer
  stacks are written out here as the library defines them
  (\<^verbatim>\<open>alexnet().features\<close> and \<^verbatim>\<open>alexnet().classifier\<close>).
\<close>

definition alexnet_features :: "module list" where
  "alexnet_features = map new_module
     [Conv2d 3 64 11 4 2, ReLU, MaxPool2d 3 2,
      Conv2d 64 192 5 1 2, ReLU, MaxPool2d 3 2,
      Conv2d 192 384 3 1 1, ReLU,
      Conv2d 384 256 3 1 1, ReLU,
      Conv2d 256 256 3 1 1, ReLU, MaxPool2d 3 2]"

definition alexnet_classifier :: "module list" where
  "alexnet_classifier = map new_module
     [Dropout, Linear (256 * 6 * 6) 4096, ReLU,
      Dropout, Linear 4096 4096, ReLU,
      Linear 4096 1000]"

record BilinearAlex =
  features :: "module list"
  bfc :: "module list"
  fc :: module

text \<open>\<^verbatim>\<open>param.requires_grad = False\<close> for every parameter of a layer.\<close>

definition freeze_module :: "module \<Rightarrow> module" where
  "freeze_module m = m\<lparr>params := map (\<lambda>p. p\<lparr>requires_grad := False\<rparr>) (params m)\<rparr>"

text \<open>
  \<^verbatim>\<open>BilinearAlex._freeze\<close>. For \<^verbatim>\<open>'part'\<close> the loop runs over
  \<^verbatim>\<open>self.bfc[:-1]\<close>, so the last layer of \<open>bfc\<close> and \<open>fc\<close> are left alone.
\<close>

definition freeze_net :: "string \<Rightarrow> BilinearAlex \<Rightarrow> error + BilinearAlex" where
  "freeze_net option net =
     (if option = ''part'' then
        Inr (net\<lparr>features := map freeze_module (features net),
                 bfc := map freeze_module (butlast (bfc net)) @ drop (length (bfc net) - 1) (bfc net)\<rparr>)
      else if option = ''all'' then
        Inr (net\<lparr>features := map freeze_module (features net),
                 bfc := map freeze_module (bfc net),
                 fc := freeze_module (fc net)\<rparr>)
      else Inl (ValueError ''Unavailable freeze option.''))"

text \<open>
  \<^verbatim>\<open>BilinearAlex.__init__\<close>. The argument is \<^verbatim>\<open>None\<close> or a string;
  \<^verbatim>\<open>if freeze:\<close> is Python truthiness, false for \<^verbatim>\<open>None\<close> and for the
  empty string. The Kaiming initialisation that follows writes weight data only and
  leaves every \<^verbatim>\<open>requires_grad\<close> as it is.
\<close>

definition truthy :: "string option \<Rightarrow> bool" where
  "truthy f = (case f of None \<Rightarrow> False | Some s \<Rightarrow> s \<noteq> [])"

definition BilinearAlex_init :: "string option \<Rightarrow> error + BilinearAlex" where
  "BilinearAlex_init freeze =
     (let net = \<lparr>features = alexnet_features,
                 bfc = butlast alexnet_classifier @ [new_module (Linear 4096 512)],
                 fc = new_module (Linear (512 ^ 2) 512)\<rparr>
      in if truthy freeze then freeze_net (the freeze) net else Inr net)"

text \<open>
  \<^verbatim>\<open>net.parameters()\<close>: every parameter, named by the stack it lives in, the
  index of its layer there, and its slot, in the order PyTorch lists them.
\<close>

datatype part = Features | Bfc | Fc

type_synonym param_id = "part \<times> nat \<times> slot"

definition stack_parameters :: "part \<Rightarrow> module list \<Rightarrow> (param_id \<times> bool) list" where
  "stack_parameters pt ms =
     concat (map (\<lambda>(i, m). map (\<lambda>p. ((pt, i, slot p), requires_grad p)) (params m))
                 (enumerate 0 ms))"

definition parameters :: "BilinearAlex \<Rightarrow> (param_id \<times> bool) list" where
  "parameters net =
     stack_parameters Features (features net) @ stack_parameters Bfc (bfc net)
       @ stack_parameters Fc [fc net]"

text \<open>\<^verbatim>\<open>filter(lambda p: p.requires_grad, net.parameters())\<close>.\<close>

definition trainable :: "BilinearAlex \<Rightarrow> param_id list" where
  "trainable net = map fst (filter snd (parameters net))"

section \<open>Tensors\<close>

text \<open>
  A tensor is its shape and its elements in row-major order, as a contiguous
  \<^verbatim>\<open>torch.Tensor\<close> stores them. The element type is left open: the claims
  proved below use only that it has \<open>+\<close>, \<open>*\<close> and \<open>0\<close>.
\<close>

record 'a tensor =
  shape :: "nat list"
  data :: "'a list"

text \<open>Sequencing of fallible steps: the first exception ends the computation.\<close>

definition bind_err :: "error + 'a \<Rightarrow> ('a \<Rightarrow> error + 'b) \<Rightarrow> error + 'b" where
  "bind_err m f = (case m of Inl e \<Rightarrow> Inl e | Inr x \<Rightarrow> f x)"

text \<open>
  \<^verbatim>\<open>Tensor.view(*sizes)\<close>, after PyTorch's size inference: at most one size may
  be \<open>-1\<close>; it is inferred from the element count, which fails when the known sizes
  multiply to zero or do not divide the count. Without a \<open>-1\<close> the sizes must
  multiply to the element count. The elements are not moved.
\<close>

definition view :: "'a tensor \<Rightarrow> int list \<Rightarrow> error + 'a tensor" where
  "view t sz =
     (let n = prod_list (shape t);
          known = nat (prod_list (filter (\<lambda>d. d \<noteq> - 1) sz))
      in if list_ex (\<lambda>d. d < - 1) sz \<or> 1 < count_list sz (- 1) then Inl RuntimeError
         else if - 1 \<in> set sz then
           (if 0 < known \<and> n mod known = 0
            then Inr (t\<lparr>shape := map (\<lambda>d. if d = - 1 then n div known else nat d) sz\<rparr>)
            else Inl RuntimeError)
         else if n = known then Inr (t\<lparr>shape := map nat sz\<rparr>)
         else Inl RuntimeError)"

text \<open>
  \<^verbatim>\<open>torch.transpose(X, 1, 2)\<close>: dimensions 1 and 2 are swapped; a tensor with
  fewer than three dimensions has no dimension 2. With \<open>c\<close> the number of elements
  under dimension 2, the element at \<open>[i, q, p, r]\<close> of the result is the element at
  \<open>[i, p, q, r]\<close> of the argument.
\<close>

definition transpose_1_2 :: "'a tensor \<Rightarrow> error + 'a tensor" where
  "transpose_1_2 t =
     (case shape t of
        n # a # b # rest \<Rightarrow>
          (let c = prod_list rest in
           Inr \<lparr>shape = n # b # a # rest,
                data = map (\<lambda>idx. let r = idx mod c; p = (idx div c) mod a;
                                      q = (idx div (c * a)) mod b; i = idx div (c * a * b)
                                  in data t ! (((i * a + p) * b + q) * c + r))
                           [0..<n * b * a * c]\<rparr>)
      | _ \<Rightarrow> Inl IndexError)"

text \<open>
  \<^verbatim>\<open>torch.matmul\<close> on two three-dimensional tensors of the same batch size, the
  only call the source makes: a batched matrix product, \<open>[n, a, k]\<close> times
  \<open>[n, k, b]\<close>, which raises when the inner sizes differ. Other ranks and
  broadcast batches do not arise in \<^verbatim>\<open>forward\<close> and are not modelled
  (they are given \<open>RuntimeError\<close>).
\<close>

definition matmul :: "('a::semiring_0) tensor \<Rightarrow> 'a tensor \<Rightarrow> error + 'a tensor" where
  "matmul x y =
     (case (shape x, shape y) of
        ([n, a, k], [n', k', b]) \<Rightarrow>
          (if n = n' \<and> k = k' then
             Inr \<lparr>shape = [n, a, b],
                  data = map (\<lambda>idx. let i = idx div (a * b); p = (idx div b) mod a; q = idx mod b
                                    in sum_list (map (\<lambda>l. data x ! ((i * a + p) * k + l)
                                                          * data y ! ((i * k + l) * b + q))
                                                     [0..<k]))
                             [0..<n * a * b]\<rparr>
           else Inl RuntimeError)
      | _ \<Rightarrow> Inl RuntimeError)"

text \<open>
  The shape a layer produces, with the output-size formulas of \<^verbatim>\<open>torch.nn\<close>:
  a convolution or pooling window that does not fit and a wrong channel or feature
  count raise.
\<close>

fun layer_shape :: "layer \<Rightarrow> nat list \<Rightarrow> error + nat list" where
  "layer_shape (Conv2d cin cout k s p) [n, c, h, w] =
     (if c = cin \<and> 0 < s \<and> k \<le> h + 2 * p \<and> k \<le> w + 2 * p
      then Inr [n, cout, (h + 2 * p - k) div s + 1, (w + 2 * p - k) div s + 1]
      else Inl RuntimeError)"
| "layer_shape (Conv2d cin cout k s p) _ = Inl RuntimeError"
| "layer_shape (MaxPool2d k s) [n, c, h, w] =
     (if 0 < s \<and> k \<le> h \<and> k \<le> w
      then Inr [n, c, (h - k) div s + 1, (w - k) div s + 1]
      else Inl RuntimeError)"
| "layer_shape (MaxPool2d k s) _ = Inl RuntimeError"
| "layer_shape (Linear i out) sh =
     (if sh \<noteq> [] \<and> last sh = i then Inr (butlast sh @ [out]) else Inl RuntimeError)"
| "layer_shape ReLU sh = Inr sh"
| "layer_shape Dropout sh = Inr sh"

text \<open>
  Running a layer. The numbers a layer computes depend on its weights, which are not
  modelled: they are the parameter \<open>sem\<close>. The shape is computed.
\<close>

definition apply_module ::
  "(module \<Rightarrow> 'a tensor \<Rightarrow> 'a list) \<Rightarrow> module \<Rightarrow> 'a tensor \<Rightarrow> error + 'a tensor" where
  "apply_module sem m t =
     bind_err (layer_shape (kind m) (shape t)) (\<lambda>sh. Inr \<lparr>shape = sh, data = sem m t\<rparr>)"

text \<open>\<^verbatim>\<open>torch.nn.Sequential\<close>: the layers in order.\<close>

fun sequential ::
  "(module \<Rightarrow> 'a tensor \<Rightarrow> 'a list) \<Rightarrow> module list \<Rightarrow> 'a tensor \<Rightarrow> error + 'a tensor" where
  "sequential sem [] t = Inr t"
| "sequential sem (m # ms) t = bind_err (apply_module sem m t) (sequential sem ms)"

text \<open>
  Lines 40 to 43 of \<^verbatim>\<open>forward\<close>, the bilinear pooling:
  \<^verbatim>\<open>X = X.view(N, -1, 512)\<close>,
  \<^verbatim>\<open>X = torch.matmul(torch.transpose(X, 1, 2), X)\<close>,
  \<^verbatim>\<open>assert X.size() == (N, 512, 512)\<close>,
  \<^verbatim>\<open>X = X.view(N, 512**2)\<close>.
\<close>

definition bilinear_pool :: "nat \<Rightarrow> ('a::semiring_0) tensor \<Rightarrow> error + 'a tensor" where
  "bilinear_pool N X =
     bind_err (view X [int N, - 1, 512]) (\<lambda>X.
     bind_err (transpose_1_2 X) (\<lambda>XT.
     bind_err (matmul XT X) (\<lambda>X.
     if shape X \<noteq> [N, 512, 512] then Inl AssertionError
     else view X [int N, 512 ^ 2])))"

text \<open>
  \<^verbatim>\<open>BilinearAlex.forward\<close>. \<^verbatim>\<open>X.size()[0]\<close> needs a first dimension;
  each \<^verbatim>\<open>assert\<close> raises \<^verbatim>\<open>AssertionError\<close>.
\<close>

definition forward ::
  "(module \<Rightarrow> 'a tensor \<Rightarrow> 'a list) \<Rightarrow> BilinearAlex \<Rightarrow> ('a::semiring_0) tensor
     \<Rightarrow> error + 'a tensor" where
  "forward sem net X =
     (case shape X of
        [] \<Rightarrow> Inl IndexError
      | N # _ \<Rightarrow>
          if shape X \<noteq> [N, 3, 227, 227] then Inl AssertionError
          else
            bind_err (sequential sem (features net) X) (\<lambda>X.
            bind_err (view X [int N, 256 * 6 * 6]) (\<lambda>X.
            bind_err (sequential sem (bfc net) X) (\<lambda>X.
            if shape X \<noteq> [N, 512] then Inl AssertionError
            else
              bind_err (bilinear_pool N X) (\<lambda>X.
              bind_err (apply_module sem (fc net) X) (\<lambda>X.
              if shape X \<noteq> [N, 512] then Inl AssertionError
              else Inr X))))))"

section \<open>The dataset indexer\<close>

text \<open>
  What \<^verbatim>\<open>sun360h_data_load\<close> reads from outside: the ground-truth tables as
  \<^verbatim>\<open>csv.reader\<close> returns them (rows of string cells) and the task files as
  \<^verbatim>\<open>json.load\<close> returns them (\<^verbatim>\<open>[anchor_name, [candidate_names]]\<close>),
  both by path, \<open>None\<close> for a file that cannot be opened; and Python's
  \<^verbatim>\<open>int\<close> on a string, \<open>None\<close> where it raises.
\<close>

record task =
  anchor :: string
  candidates :: "string list"

record env =
  csv_files :: "string \<Rightarrow> string list list option"
  json_files :: "string \<Rightarrow> task option"
  py_int :: "string \<Rightarrow> int option"

type_synonym batch = "string list \<times> string list \<times> string list"

definition root_path :: string where
  "root_path = ''/mnt/nfs/scratch1/gluo/SUN360/HalfHalf/''"

definition imgs_path :: string where
  "imgs_path = ''/IMGs/''"

text \<open>
  Lines 159 to 175: the partition is checked first, then the version; the result is
  \<^verbatim>\<open>(task_path, gt_path)\<close>.
\<close>

definition resolve_paths :: "string \<Rightarrow> int \<Rightarrow> error + (string \<times> string)" where
  "resolve_paths part ver =
     (if part = ''train'' \<or> part = ''test'' then
        (let task_path = ''task_'' @ part; gt_path = ''gt_'' @ part in
         if ver = 0 then Inr (task_path @ ''/'', gt_path @ ''.csv'')
         else if ver = 1 then Inr (task_path @ ''_v1/'', gt_path @ ''_v1.csv'')
         else if ver = 2 then Inr (task_path @ ''_v2/'', gt_path @ ''_v2.csv'')
         else Inl (ValueError ''Unavailable dataset version!''))
      else Inl (ValueError ''Unavailable dataset part!''))"

text \<open>
  \<^verbatim>\<open>[k for k in range(10) if k != pos][r]\<close>, the candidate index of the
  negative, for the positive index \<open>pos\<close> and the draw \<open>r\<close> of
  \<^verbatim>\<open>np.random.randint(9)\<close>.
\<close>

definition negative_index :: "int \<Rightarrow> nat \<Rightarrow> error + int" where
  "negative_index pos r = py_nth (filter (\<lambda>k. k \<noteq> pos) (map int [0..<10])) (int r)"

text \<open>
  The body of the inner loop (lines 187 to 191) for row \<open>j\<close> and the draw \<open>r\<close>:
  the task file named by the first cell is opened, then the anchor, the positive (the
  candidate at the index in the second cell) and the negative are appended.
\<close>

definition load_row ::
  "env \<Rightarrow> string \<Rightarrow> string list list \<Rightarrow> nat \<Rightarrow> nat \<Rightarrow> error + (string \<times> string \<times> string)" where
  "load_row e task_path gt_list j r =
     bind_err (py_nth gt_list (int j)) (\<lambda>row.
     bind_err (py_nth row 0) (\<lambda>sample.
     bind_err (case json_files e (root_path @ task_path @ sample @ ''.json'') of
                 None \<Rightarrow> Inl IOError | Some names \<Rightarrow> Inr names) (\<lambda>names.
     bind_err (py_nth row 1) (\<lambda>cell.
     bind_err (case py_int e cell of
                 None \<Rightarrow> Inl (ValueError ''invalid literal for int()'') | Some pos \<Rightarrow> Inr pos) (\<lambda>pos.
     bind_err (py_nth (candidates names) pos) (\<lambda>p.
     bind_err (negative_index pos r) (\<lambda>k.
     bind_err (py_nth (candidates names) k) (\<lambda>n.
     Inr (root_path @ imgs_path @ anchor names,
          root_path @ imgs_path @ p,
          root_path @ imgs_path @ n)))))))))"

text \<open>
  The inner loop over one slice of the permutation. \<open>rnd c\<close> is what the call of
  \<^verbatim>\<open>np.random.randint(9)\<close> returns after \<open>c\<close> earlier calls; every row makes
  one call.
\<close>

fun load_rows ::
  "env \<Rightarrow> string \<Rightarrow> string list list \<Rightarrow> (nat \<Rightarrow> nat) \<Rightarrow> nat list \<Rightarrow> nat \<Rightarrow> error + batch" where
  "load_rows e task_path gt_list rnd [] c = Inr ([], [], [])"
| "load_rows e task_path gt_list rnd (j # js) c =
     bind_err (load_row e task_path gt_list j (rnd c)) (\<lambda>(a, p, n).
     bind_err (load_rows e task_path gt_list rnd js (Suc c)) (\<lambda>(a_batch, p_batch, n_batch).
     Inr (a # a_batch, p # p_batch, n # n_batch)))"

text \<open>
  The outer loop, \<^verbatim>\<open>for i in range(0, gt_len, batch)\<close> with a positive step,
  over the slices \<^verbatim>\<open>idx[i:min(i+batch, gt_len)]\<close>.
\<close>

definition slice :: "nat list \<Rightarrow> nat \<Rightarrow> nat \<Rightarrow> nat list" where
  "slice idx i j = take (j - i) (drop i idx)"

function load_batches ::
  "env \<Rightarrow> string \<Rightarrow> string list list \<Rightarrow> nat list \<Rightarrow> (nat \<Rightarrow> nat) \<Rightarrow> nat \<Rightarrow> nat \<Rightarrow> nat
     \<Rightarrow> error + batch list" where
  "load_batches e task_path gt_list idx rnd batch i c =
     (if 0 < batch \<and> i < length gt_list then
        (let js = slice idx i (min (i + batch) (length gt_list)) in
         bind_err (load_rows e task_path gt_list rnd js c) (\<lambda>b.
         bind_err (load_batches e task_path gt_list idx rnd batch (i + batch) (c + length js)) (\<lambda>result.
         Inr (b # result))))
      else Inr [])"
  by pat_completeness auto
termination
  by (relation "measure (\<lambda>(e, task_path, gt_list, idx, rnd, batch, i, c). length gt_list - i)") auto

declare load_batches.simps [simp del]

text \<open>
  \<^verbatim>\<open>sun360h_data_load(part, ver, batch)\<close>. \<open>idx\<close> is what
  \<^verbatim>\<open>np.random.permutation(gt_len)\<close> returns. \<^verbatim>\<open>range\<close> raises on a zero
  step and is empty for a negative one.
\<close>

definition sun360h_data_load ::
  "env \<Rightarrow> string \<Rightarrow> int \<Rightarrow> int \<Rightarrow> nat list \<Rightarrow> (nat \<Rightarrow> nat) \<Rightarrow> error + batch list" where
  "sun360h_data_load e part ver batch idx rnd =
     bind_err (resolve_paths part ver) (\<lambda>(task_path, gt_path).
     case csv_files e (root_path @ gt_path) of
       None \<Rightarrow> Inl IOError
     | Some gt_list \<Rightarrow>
         if batch = 0 then Inl (ValueError ''range() arg 3 must not be zero'')
         else if batch < 0 then Inr []
         else load_batches e task_path gt_list idx rnd (nat batch) 0 0)"

text \<open>
  A well-formed row of a ground-truth table, as the specification describes the data:
  at least two cells, a task file under the name in the first cell with ten
  candidates, and a positive index from 0 to 9 in the second cell.
\<close>

definition row_ok :: "env \<Rightarrow> string \<Rightarrow> string list \<Rightarrow> bool" where
  "row_ok e task_path row =
     (2 \<le> length row \<and>
      (case json_files e (root_path @ task_path @ row ! 0 @ ''.json'') of
         None \<Rightarrow> False
       | Some names \<Rightarrow>
           length (candidates names) = 10 \<and>
           (case py_int e (row ! 1) of None \<Rightarrow> False | Some pos \<Rightarrow> 0 \<le> pos \<and> pos < 10)))"

text \<open>
  The positive of a row is well defined and no other candidate of the row's task file
  carries its name: the index in the second cell is from 0 to 9, and the name at that
  index occurs nowhere else in the candidate list.
\<close>

definition positive_unique :: "env \<Rightarrow> string \<Rightarrow> string list \<Rightarrow> bool" where
  "positive_unique e task_path row =
     (case json_files e (root_path @ task_path @ row ! 0 @ ''.json'') of
        None \<Rightarrow> False
      | Some names \<Rightarrow>
          (case py_int e (row ! 1) of
             None \<Rightarrow> False
           | Some pos \<Rightarrow>
               0 \<le> pos \<and> pos < 10 \<and>
               candidates names ! nat pos
                 \<notin> set (take (nat pos) (candidates names) @ drop (Suc (nat pos)) (candidates names))))"

text \<open>The triplets of a batch, row by row.\<close>

definition rows_of :: "batch \<Rightarrow> (string \<times> string \<times> string) list" where
  "rows_of b = (case b of (a_batch, p_batch, n_batch) \<Rightarrow> zip a_batch (zip p_batch n_batch))"

section \<open>The manager\<close>

text \<open>
  \<^verbatim>\<open>torch.optim.SGD(params, lr=0.001, momentum=0.9)\<close>: the optimizer holds the
  parameters it was given, and refuses an empty list.
\<close>

record optimizer =
  opt_params :: "param_id list"
  lr :: real
  momentum :: real

definition SGD :: "param_id list \<Rightarrow> real \<Rightarrow> real \<Rightarrow> error + optimizer" where
  "SGD ps l mo =
     (if ps = [] then Inl (ValueError ''optimizer got an empty parameter list'')
      else Inr \<lparr>opt_params = ps, lr = l, momentum = mo\<rparr>)"

text \<open>
  \<^verbatim>\<open>BilinearAlexManager\<close>. \<open>solver\<close> is \<open>None\<close> when the attribute
  \<^verbatim>\<open>_solver\<close> was never assigned.
\<close>

record BilinearAlexManager =
  mgr_net :: BilinearAlex
  margin :: real
  batch_size :: int
  epoch :: nat
  solver :: "optimizer option"

text \<open>
  \<^verbatim>\<open>BilinearAlexManager.__init__(freeze)\<close> without a checkpoint path, as
  \<^verbatim>\<open>main\<close> calls it.
\<close>

definition Manager_init :: "string option \<Rightarrow> error + BilinearAlexManager" where
  "Manager_init freeze =
     bind_err (BilinearAlex_init freeze) (\<lambda>n.
       let m = \<lparr>mgr_net = n, margin = 1, batch_size = 1, epoch = 1, solver = None\<rparr>
       in if freeze \<noteq> Some ''all'' then
            bind_err (SGD (trainable n) (1 / 1000) (9 / 10)) (\<lambda>s. Inr (m\<lparr>solver := Some s\<rparr>))
          else Inr m)"

text \<open>\<^verbatim>\<open>_data_loader(train)\<close>: the version is left at its default 0.\<close>

definition data_loader ::
  "BilinearAlexManager \<Rightarrow> env \<Rightarrow> bool \<Rightarrow> nat list \<Rightarrow> (nat \<Rightarrow> nat) \<Rightarrow> error + batch list" where
  "data_loader m e train idx rnd =
     (if train then sun360h_data_load e ''train'' 0 (batch_size m) idx rnd
      else sun360h_data_load e ''test'' 0 (batch_size m) idx rnd)"

subsection \<open>Testing\<close>

text \<open>\<^verbatim>\<open>((x - y)**2).sum()\<close> for one row of two embedding arrays.\<close>

definition sq_dist :: "real list \<Rightarrow> real list \<Rightarrow> real" where
  "sq_dist x y = sum_list (map (\<lambda>(u, v). (u - v) ^ 2) (zip x y))"

text \<open>
  One pass of the loop of \<^verbatim>\<open>test\<close>. \<open>emb\<close> stands for loading the images
  of a list of paths and running the network on them: one embedding per path, or an
  error. Line 124 counts the rows whose margin expression is at most 0, line 125 adds
  \<^verbatim>\<open>len(a)\<close>.
\<close>

definition test_batch ::
  "BilinearAlexManager \<Rightarrow> (string list \<Rightarrow> error + real list list) \<Rightarrow> nat \<times> nat \<Rightarrow> batch
     \<Rightarrow> error + nat \<times> nat" where
  "test_batch m emb st b =
     (case (st, b) of ((num_correct, num_total), (a, p, n)) \<Rightarrow>
        bind_err (emb a) (\<lambda>feat_a.
        bind_err (emb p) (\<lambda>feat_p.
        bind_err (emb n) (\<lambda>feat_n.
        Inr (num_correct
               + length (filter (\<lambda>(fa, fp, fn). sq_dist fa fp - sq_dist fa fn + margin m \<le> 0)
                                (zip feat_a (zip feat_p feat_n))),
             num_total + length a)))))"

fun test_batches ::
  "BilinearAlexManager \<Rightarrow> (string list \<Rightarrow> error + real list list) \<Rightarrow> nat \<times> nat \<Rightarrow> batch list
     \<Rightarrow> error + nat \<times> nat" where
  "test_batches m emb st [] = Inr st"
| "test_batches m emb st (b # bs) =
     bind_err (test_batch m emb st b) (\<lambda>st'. test_batches m emb st' bs)"

text \<open>
  \<^verbatim>\<open>BilinearAlexManager.test\<close>; the result is the accuracy it prints. With no
  sample the division raises.
\<close>

definition test ::
  "BilinearAlexManager \<Rightarrow> env \<Rightarrow> (string list \<Rightarrow> error + real list list) \<Rightarrow> nat list \<Rightarrow> (nat \<Rightarrow> nat)
     \<Rightarrow> error + real" where
  "test m e emb idx rnd =
     bind_err (data_loader m e False idx rnd) (\<lambda>batches.
     bind_err (test_batches m emb (0, 0) batches) (\<lambda>(num_correct, num_total).
     if num_total = 0 then Inl ZeroDivisionError
     else Inr (real num_correct / real num_total)))"

subsection \<open>Training\<close>

text \<open>
  What training takes from the tensor library, over weights \<open>'w\<close> and loaded image
  triples \<open>'x\<close>: \<^verbatim>\<open>_image_loader\<close>, which can fail; the triplet loss of the three
  forward passes; and the weights after \<^verbatim>\<open>backward\<close> and \<^verbatim>\<open>step\<close>.
\<close>

record ('w, 'x) backend =
  image_loader :: "batch \<Rightarrow> error + 'x"
  loss_fn :: "'w \<Rightarrow> 'x \<Rightarrow> real"
  step_fn :: "'w \<Rightarrow> 'x \<Rightarrow> 'w"

datatype event = PrintLoss real | Saved

text \<open>
  The body of the batch loop (lines 95 to 108) on the state
  \<^verbatim>\<open>(weights, epoch_loss, iter_num)\<close>. The images are loaded first; then
  \<^verbatim>\<open>self._solver.zero_grad()\<close> needs the attribute.
\<close>

definition train_batch ::
  "('w, 'x) backend \<Rightarrow> BilinearAlexManager \<Rightarrow> 'w \<times> real list \<times> nat \<Rightarrow> batch
     \<Rightarrow> error + 'w \<times> real list \<times> nat" where
  "train_batch bk m st b =
     (case st of (w, epoch_loss, iter_num) \<Rightarrow>
        bind_err (image_loader bk b) (\<lambda>x.
        case solver m of
          None \<Rightarrow> Inl AttributeError
        | Some s \<Rightarrow> Inr (step_fn bk w x, epoch_loss @ [loss_fn bk w x], iter_num + 1)))"

fun train_batches ::
  "('w, 'x) backend \<Rightarrow> BilinearAlexManager \<Rightarrow> 'w \<times> real list \<times> nat \<Rightarrow> batch list
     \<Rightarrow> error + 'w \<times> real list \<times> nat" where
  "train_batches bk m st [] = Inr st"
| "train_batches bk m st (b # bs) =
     bind_err (train_batch bk m st b) (\<lambda>st'. train_batches bk m st' bs)"

text \<open>
  One epoch (lines 90 to 110). The test \<^verbatim>\<open>iter_num%50 == 0\<close> stands after the
  batch loop, at the indentation of the \<^verbatim>\<open>for\<close>; \<^verbatim>\<open>epoch_loss[-1]\<close> raises
  on the empty list.
\<close>

definition train_epoch ::
  "('w, 'x) backend \<Rightarrow> BilinearAlexManager \<Rightarrow> env \<Rightarrow> nat list \<Rightarrow> (nat \<Rightarrow> nat)
     \<Rightarrow> 'w \<times> event list \<Rightarrow> error + 'w \<times> event list" where
  "train_epoch bk m e idx rnd st =
     (case st of (w, out) \<Rightarrow>
        bind_err (data_loader m e True idx rnd) (\<lambda>batches.
        bind_err (train_batches bk m (w, [], 0) batches) (\<lambda>(w', epoch_loss, iter_num).
        if iter_num mod 50 = 0 then
          bind_err (py_nth epoch_loss (- 1)) (\<lambda>l. Inr (w', out @ [PrintLoss l]))
        else Inr (w', out))))"

text \<open>
  \<^verbatim>\<open>for t in range(self._epoch)\<close>: epoch \<open>t\<close> loads the data with the permutation
  \<open>idxs t\<close> and the draws \<open>rnds t\<close>.
\<close>

fun train_epochs ::
  "('w, 'x) backend \<Rightarrow> BilinearAlexManager \<Rightarrow> env \<Rightarrow> (nat \<Rightarrow> nat list) \<Rightarrow> (nat \<Rightarrow> nat \<Rightarrow> nat)
     \<Rightarrow> nat \<Rightarrow> nat \<Rightarrow> 'w \<times> event list \<Rightarrow> error + 'w \<times> event list" where
  "train_epochs bk m e idxs rnds t 0 st = Inr st"
| "train_epochs bk m e idxs rnds t (Suc k) st =
     bind_err (train_epoch bk m e (idxs t) (rnds t) st) (train_epochs bk m e idxs rnds (Suc t) k)"

text \<open>
  \<^verbatim>\<open>BilinearAlexManager.train\<close>: the epochs, then \<^verbatim>\<open>_save\<close>. The result is
  the final weights and what was printed, in order.
\<close>

definition train ::
  "('w, 'x) backend \<Rightarrow> BilinearAlexManager \<Rightarrow> env \<Rightarrow> (nat \<Rightarrow> nat list) \<Rightarrow> (nat \<Rightarrow> nat \<Rightarrow> nat)
     \<Rightarrow> 'w \<Rightarrow> error + 'w \<times> event list" where
  "train bk m e idxs rnds w =
     bind_err (train_epochs bk m e idxs rnds 0 (epoch m) (w, [])) (\<lambda>(w', out).
     Inr (w', out @ [Saved]))"

section \<open>Example datasets\<close>

text \<open>
  Concrete inputs at which the theorems below are instantiated: a table of \<open>n\<close>
  equal rows over one task file with ten different candidates; a task file in which
  two candidates carry the same name; a file system with no file at all; and the
  draws of a generator that always returns 0.
\<close>

definition demo_task :: task where
  "demo_task = \<lparr>anchor = ''a.jpg'',
     candidates = [''c0.jpg'', ''c1.jpg'', ''c2.jpg'', ''c3.jpg'', ''c4.jpg'',
                   ''c5.jpg'', ''c6.jpg'', ''c7.jpg'', ''c8.jpg'', ''c9.jpg'']\<rparr>"

definition demo_env :: "nat \<Rightarrow> env" where
  "demo_env n = \<lparr>csv_files = (\<lambda>path. Some (replicate n [''s0'', ''3''])),
                  json_files = (\<lambda>path. Some demo_task),
                  py_int = (\<lambda>cell. if cell = ''3'' then Some 3 else None)\<rparr>"

definition dup_task :: task where
  "dup_task = \<lparr>anchor = ''a.jpg'',
     candidates = [''x.jpg'', ''x.jpg'', ''c2.jpg'', ''c3.jpg'', ''c4.jpg'',
                   ''c5.jpg'', ''c6.jpg'', ''c7.jpg'', ''c8.jpg'', ''c9.jpg'']\<rparr>"

definition dup_env :: env where
  "dup_env = \<lparr>csv_files = (\<lambda>path. Some [[''s0'', ''0'']]),
               json_files = (\<lambda>path. Some dup_task),
               py_int = (\<lambda>cell. if cell = ''0'' then Some 0 else None)\<rparr>"

text \<open>
  A table of two rows: the task file of the first row repeats the positive's name, the
  task file of the second row has ten different candidates.
\<close>

definition mixed_env :: env where
  "mixed_env = \<lparr>csv_files = (\<lambda>path. Some [[''s0'', ''0''], [''s1'', ''0'']]),
                 json_files = (\<lambda>path. if path = root_path @ ''task_train/s0.json''
                                         then Some dup_task else Some demo_task),
                 py_int = (\<lambda>cell. if cell = ''0'' then Some 0 else None)\<rparr>"

definition no_files :: env where
  "no_files = \<lparr>csv_files = (\<lambda>path. None), json_files = (\<lambda>path. None),
                py_int = (\<lambda>cell. None)\<rparr>"

definition zero_draws :: "nat \<Rightarrow> nat" where
  "zero_draws c = 0"

text \<open>
  A tensor backend that loads every batch, with constant loss and weights; the
  identity permutation of \<open>n\<close> rows and the zero draws for every epoch; an
  embedding that knows three image files, sends \<^verbatim>\<open>a.jpg\<close> to \<open>[0]\<close>,
  \<^verbatim>\<open>c3.jpg\<close> to \<open>[2]\<close> and \<^verbatim>\<open>c0.jpg\<close> to \<open>[2.5]\<close>, and fails on any other
  path; and an embedding into the plane whose squared distances are 0.1 (from
  \<^verbatim>\<open>a\<close> to \<^verbatim>\<open>p\<close>) and 2 (from \<^verbatim>\<open>a\<close> to \<^verbatim>\<open>n\<close>).
\<close>

definition demo_backend :: "(unit, unit) backend" where
  "demo_backend = \<lparr>image_loader = (\<lambda>b. Inr ()), loss_fn = (\<lambda>w x. 0), step_fn = (\<lambda>w x. w)\<rparr>"

definition epoch_perm :: "nat \<Rightarrow> nat \<Rightarrow> nat list" where
  "epoch_perm n t = [0..<n]"

definition epoch_draws :: "nat \<Rightarrow> nat \<Rightarrow> nat" where
  "epoch_draws t = zero_draws"



section \<open>Auxiliary notions\<close>




text \<open>
  The shapes a stack of layers runs through; \<^const>\<open>sequential\<close> computes exactly
  these, whatever numbers the layers produce.
\<close>

fun stack_shape :: "layer list \<Rightarrow> nat list \<Rightarrow> error + nat list" where
  "stack_shape [] sh = Inr sh"
| "stack_shape (l # ls) sh = bind_err (layer_shape l sh) (stack_shape ls)"

section \<open>Shapes through the network\<close>

lemma sequential_shape:
  "map_sum id shape (sequential sem ms t) = stack_shape (map kind ms) (shape t)"
proof (induction ms arbitrary: t)
  case Nil
  show ?case by simp
next
  case (Cons m ms)
  show ?case
  proof (cases "layer_shape (kind m) (shape t)")
    case (Inl e)
    then show ?thesis by (simp add: apply_module_def bind_err_def)
  next
    case (Inr sh)
    then show ?thesis using Cons.IH [of "\<lparr>shape = sh, data = sem m t\<rparr>"]
      by (simp add: apply_module_def bind_err_def)
  qed
qed

lemma sequential_Inr:
  assumes "stack_shape (map kind ms) (shape t) = Inr sh"
  shows "\<exists>Y. sequential sem ms t = Inr Y \<and> shape Y = sh"
  using sequential_shape [of sem ms t] assms
  by (cases "sequential sem ms t") auto

lemma features_shape:
  "stack_shape (map kind alexnet_features) [N, 3, 227, 227] = Inr [N, 256, 6, 6]"
  by (simp add: alexnet_features_def bind_err_def)

lemma bfc_shape:
  "stack_shape (map kind (butlast alexnet_classifier @ [new_module (Linear 4096 512)])) [N, 9216] = Inr [N, 512]"
  by (simp add: alexnet_classifier_def bind_err_def)

lemma view_flat: "prod_list (shape t) = N * M \<Longrightarrow> view t [int N, int M] = Inr (t\<lparr>shape := [N, M]\<rparr>)"
  by (simp add: view_def Let_def nat_mult_distrib)

lemma view_infer:
  "shape t = [N, M] \<Longrightarrow> 0 < N \<Longrightarrow> 0 < M \<Longrightarrow> view t [int N, - 1, int M] = Inr (t\<lparr>shape := [N, 1, M]\<rparr>)"
  by (simp add: view_def Let_def nat_mult_distrib)

lemma transpose_row:
  assumes "shape t = [N, 1, M]" "length (data t) = N * M"
  shows "transpose_1_2 t = Inr \<lparr>shape = [N, M, 1], data = data t\<rparr>"
proof -
  have "map (\<lambda>idx. data t ! (idx div M * M + idx mod M)) [0..<N * M] = data t"
    using assms(2) map_nth [of "data t"] by simp
  then show ?thesis using assms(1) by (simp add: transpose_1_2_def)
qed

lemma matmul_outer:
  assumes "shape xt = [N, M, 1]" "shape x = [N, 1, M]"
  shows "matmul xt x = Inr \<lparr>shape = [N, M, M],
           data = map (\<lambda>idx. data xt ! (idx div (M * M) * M + (idx div M) mod M)
                              * data x ! (idx div (M * M) * M + idx mod M)) [0..<N * M * M]\<rparr>"
  using assms by (simp add: matmul_def Let_def)

lemma pool_general:
  assumes "shape X = [N, 512]" "length (data X) = N * 512" "0 < N"
  shows "bilinear_pool N X = Inr \<lparr>shape = [N, 512 ^ 2],
           data = map (\<lambda>idx. data X ! (idx div (512 * 512) * 512 + (idx div 512) mod 512)
                              * data X ! (idx div (512 * 512) * 512 + idx mod 512)) [0..<N * 512 * 512]\<rparr>"
proof -
  have v: "view X [int N, - 1, 512] = Inr (X\<lparr>shape := [N, 1, 512]\<rparr>)"
    using view_infer [of X N 512] assms by simp
  have t: "transpose_1_2 (X\<lparr>shape := [N, 1, 512]\<rparr>) = Inr \<lparr>shape = [N, 512, 1], data = data X\<rparr>"
    using transpose_row [of "X\<lparr>shape := [N, 1, 512]\<rparr>" N 512] assms by simp
  have m: "matmul \<lparr>shape = [N, 512, 1], data = data X\<rparr> (X\<lparr>shape := [N, 1, 512]\<rparr>) = Inr \<lparr>shape = [N, 512, 512],
           data = map (\<lambda>idx. data X ! (idx div (512 * 512) * 512 + (idx div 512) mod 512)
                              * data X ! (idx div (512 * 512) * 512 + idx mod 512)) [0..<N * 512 * 512]\<rparr>"
    using matmul_outer [of "\<lparr>shape = [N, 512, 1], data = data X\<rparr>" N 512 "X\<lparr>shape := [N, 1, 512]\<rparr>"] by simp
  have w: "view \<lparr>shape = [N, 512, 512], data = d\<rparr> [int N, 512 ^ 2] = Inr \<lparr>shape = [N, 512 ^ 2], data = d\<rparr>" for d :: "'a list"
    using view_flat [of "\<lparr>shape = [N, 512, 512], data = d\<rparr>" N "512 ^ 2"] by simp
  show ?thesis
    unfolding bilinear_pool_def using v t m w by (simp add: bind_err_def)
qed

lemma idx_div: "i < a \<Longrightarrow> j < a \<Longrightarrow> (n * (a * a) + i * a + j) div (a * a) = (n::nat)"
proof -
  assume h: "i < a" "j < a"
  have "i * a + j < a * a"
  proof -
    have "i * a + j < i * a + a" using h by simp
    also have "\<dots> = (i + 1) * a" by simp
    also have "\<dots> \<le> a * a" using h by (metis Suc_eq_plus1 Suc_leI mult.commute mult_le_mono2)
    finally show ?thesis .
  qed
  moreover have "0 < a * a" using h by simp
  ultimately have "(n * (a * a) + (i * a + j)) div (a * a) = n" by simp
  then show ?thesis by (simp add: add.assoc)
qed

lemma idx_mid: "i < a \<Longrightarrow> j < a \<Longrightarrow> ((n * (a * a) + i * a + j) div a) mod a = (i::nat)"
proof -
  assume h: "i < a" "j < a"
  have "n * (a * a) + i * a + j = (n * a + i) * a + j" by (simp add: algebra_simps)
  then have "(n * (a * a) + i * a + j) div a = n * a + i" using h by simp
  then show ?thesis using h by simp
qed

lemma idx_low: "j < a \<Longrightarrow> (n * (a * a) + i * a + j) mod a = (j::nat)"
proof -
  assume h: "j < a"
  have "n * (a * a) + i * a + j = (n * a + i) * a + j" by (simp add: algebra_simps)
  then show ?thesis using h by simp
qed

lemma idx_bound: "n < N \<Longrightarrow> i < a \<Longrightarrow> j < a \<Longrightarrow> n * (a * a) + i * a + j < N * a * (a::nat)"
proof -
  assume h: "n < N" "i < a" "j < a"
  have "i * a + j < a * a"
  proof -
    have "i * a + j < i * a + a" using h by simp
    also have "\<dots> = (i + 1) * a" by simp
    also have "\<dots> \<le> a * a" using h by (metis Suc_eq_plus1 Suc_leI mult.commute mult_le_mono2)
    finally show ?thesis .
  qed
  then have "n * (a * a) + i * a + j < n * (a * a) + a * a" by simp
  also have "\<dots> = (n + 1) * (a * a)" by simp
  also have "\<dots> \<le> N * (a * a)" using h by (metis Suc_eq_plus1 Suc_leI mult_le_mono1)
  finally show ?thesis by (simp add: mult.assoc)
qed

lemma pool_shape:
  assumes "shape X = [N, 512]" "0 < N"
  shows "\<exists>Y. bilinear_pool N X = Inr Y \<and> shape Y = [N, 512 ^ 2]"
proof -
  have v: "view X [int N, - 1, 512] = Inr (X\<lparr>shape := [N, 1, 512]\<rparr>)"
    using view_infer [of X N 512] assms by simp
  obtain d where t: "transpose_1_2 (X\<lparr>shape := [N, 1, 512]\<rparr>) = Inr \<lparr>shape = [N, 512, 1], data = d\<rparr>"
    by (simp add: transpose_1_2_def)
  obtain d' where m: "matmul \<lparr>shape = [N, 512, 1], data = d\<rparr> (X\<lparr>shape := [N, 1, 512]\<rparr>)
      = Inr \<lparr>shape = [N, 512, 512], data = d'\<rparr>"
    by (simp add: matmul_def)
  have w: "view \<lparr>shape = [N, 512, 512], data = d'\<rparr> [int N, 512 ^ 2] = Inr \<lparr>shape = [N, 512 ^ 2], data = d'\<rparr>"
    using view_flat [of "\<lparr>shape = [N, 512, 512], data = d'\<rparr>" N "512 ^ 2"] by simp
  show ?thesis
    unfolding bilinear_pool_def using v t m w by (simp add: bind_err_def)
qed

lemma init_kinds:
  assumes "freeze \<in> {None, Some ''part'', Some ''all''}"
  shows "\<exists>net. BilinearAlex_init freeze = Inr net
           \<and> map kind (features net) = map kind alexnet_features
           \<and> map kind (bfc net) = map kind (butlast alexnet_classifier @ [new_module (Linear 4096 512)])
           \<and> kind (fc net) = Linear (512 ^ 2) 512"
  using assms
  by (auto simp add: BilinearAlex_init_def truthy_def freeze_net_def alexnet_features_def
        alexnet_classifier_def freeze_module_def)

lemma forward_by_kinds:
  assumes f: "map kind (features net) = map kind alexnet_features"
    and b: "map kind (bfc net) = map kind (butlast alexnet_classifier @ [new_module (Linear 4096 512)])"
    and c: "kind (fc net) = Linear (512 ^ 2) 512"
    and N: "0 < N" and X: "shape X = [N, 3, 227, 227]"
  shows "\<exists>Y. forward sem net X = Inr Y \<and> shape Y = [N, 512]"
proof -
  obtain X1 where 1: "sequential sem (features net) X = Inr X1" "shape X1 = [N, 256, 6, 6]"
    using sequential_Inr [of "features net" X "[N, 256, 6, 6]" sem] features_shape [of N] f X by auto
  have 2: "view X1 [int N, 256 * 6 * 6] = Inr (X1\<lparr>shape := [N, 9216]\<rparr>)"
    using view_flat [of X1 N 9216] 1(2) by simp
  obtain X3 where 3: "sequential sem (bfc net) (X1\<lparr>shape := [N, 9216]\<rparr>) = Inr X3" "shape X3 = [N, 512]"
    using sequential_Inr [of "bfc net" "X1\<lparr>shape := [N, 9216]\<rparr>" "[N, 512]" sem] bfc_shape [of N] b by auto
  obtain X4 where 4: "bilinear_pool N X3 = Inr X4" "shape X4 = [N, 512 ^ 2]"
    using pool_shape [OF 3(2) N] by auto
  have 5: "apply_module sem (fc net) X4 = Inr \<lparr>shape = [N, 512], data = sem (fc net) X4\<rparr>"
    using 4(2) c by (simp add: apply_module_def bind_err_def)
  show ?thesis
    unfolding forward_def using X 1 2 3 4 5 by (simp add: bind_err_def)
qed

section \<open>Freeze modes and the construction of the manager\<close>

lemmas init_defs = BilinearAlex_init_def truthy_def freeze_net_def alexnet_features_def
  alexnet_classifier_def freeze_module_def new_param_def parameters_def trainable_def
  stack_parameters_def

lemma trainable_all: "\<exists>net. BilinearAlex_init (Some ''all'') = Inr net \<and> trainable net = []"
  by (simp add: init_defs)

lemma trainable_part:
  "\<exists>net. BilinearAlex_init (Some ''part'') = Inr net
     \<and> trainable net = [(Bfc, 6, Weight), (Bfc, 6, Bias), (Fc, 0, Weight), (Fc, 0, Bias)]"
  by (simp add: init_defs)

lemma trainable_none_nonempty:
  "\<exists>net. BilinearAlex_init None = Inr net \<and> trainable net \<noteq> []"
  by (simp add: init_defs)

lemma init_empty_string: "BilinearAlex_init (Some []) = BilinearAlex_init None"
  by (simp add: BilinearAlex_init_def truthy_def)

lemma init_cases:
  assumes "BilinearAlex_init f = Inr n"
  shows "f = None \<or> f = Some [] \<or> f = Some ''part'' \<or> f = Some ''all''"
proof (cases f)
  case None
  then show ?thesis by simp
next
  case (Some s)
  show ?thesis
  proof (rule ccontr)
    assume "\<not> ?thesis"
    then have "s \<noteq> []" "s \<noteq> ''part''" "s \<noteq> ''all''" using Some by simp_all
    then have "BilinearAlex_init (Some s) = Inl (ValueError ''Unavailable freeze option.'')"
      by (simp add: BilinearAlex_init_def truthy_def freeze_net_def)
    then show False using assms Some by simp
  qed
qed

lemma trainable_fc_nonempty:
  assumes "BilinearAlex_init f = Inr n" "f \<noteq> Some ''all''"
  shows "trainable n \<noteq> []"
proof -
  consider "f = None" | "f = Some []" | "f = Some ''part''"
    using init_cases [OF assms(1)] assms(2) by blast
  then show ?thesis
  proof cases
    case 1
    then show ?thesis using trainable_none_nonempty assms(1) by auto
  next
    case 2
    then show ?thesis using trainable_none_nonempty assms(1) init_empty_string by auto
  next
    case 3
    then show ?thesis using trainable_part assms(1) by auto
  qed
qed

lemma manager_solver:
  assumes "Manager_init f = Inr m"
  shows "BilinearAlex_init f = Inr (mgr_net m) \<and> margin m = 1 \<and> batch_size m = 1 \<and> epoch m = 1
     \<and> (case solver m of None \<Rightarrow> f = Some ''all''
        | Some s \<Rightarrow> f \<noteq> Some ''all'' \<and> opt_params s = trainable (mgr_net m)
                     \<and> lr s = 1 / 1000 \<and> momentum s = 9 / 10)"
proof (cases "BilinearAlex_init f")
  case (Inl e)
  then show ?thesis using assms by (simp add: Manager_init_def bind_err_def)
next
  case (Inr n)
  show ?thesis
  proof (cases "f = Some ''all''")
    case True
    have "Manager_init f = Inr \<lparr>mgr_net = n, margin = 1, batch_size = 1, epoch = 1, solver = None\<rparr>"
      unfolding Manager_init_def Inr using True by (simp add: bind_err_def)
    then show ?thesis using assms Inr True by auto
  next
    case False
    then have ne: "trainable n \<noteq> []" using trainable_fc_nonempty [OF Inr] by simp
    have "Manager_init f = Inr \<lparr>mgr_net = n, margin = 1, batch_size = 1, epoch = 1,
        solver = Some \<lparr>opt_params = trainable n, lr = 1 / 1000, momentum = 9 / 10\<rparr>\<rparr>"
      unfolding Manager_init_def Inr using False ne by (simp add: bind_err_def SGD_def)
    then show ?thesis using assms Inr False by auto
  qed
qed

lemma manager_total:
  assumes "f \<in> {None, Some ''part'', Some ''all''}"
  shows "\<exists>m. Manager_init f = Inr m"
proof -
  obtain n where n: "BilinearAlex_init f = Inr n"
    using assms by (auto simp add: BilinearAlex_init_def truthy_def freeze_net_def)
  show ?thesis
  proof (cases "f = Some ''all''")
    case True
    then show ?thesis unfolding Manager_init_def n by (simp add: bind_err_def)
  next
    case False
    then have "trainable n \<noteq> []" using trainable_fc_nonempty [OF n] by simp
    then show ?thesis unfolding Manager_init_def n using False by (simp add: bind_err_def SGD_def)
  qed
qed

lemma init_bogus:
  "s \<noteq> [] \<Longrightarrow> s \<noteq> ''part'' \<Longrightarrow> s \<noteq> ''all'' \<Longrightarrow>
     BilinearAlex_init (Some s) = Inl (ValueError ''Unavailable freeze option.'')"
  by (simp add: BilinearAlex_init_def truthy_def freeze_net_def)

lemma manager_bogus:
  "s \<noteq> [] \<Longrightarrow> s \<noteq> ''part'' \<Longrightarrow> s \<noteq> ''all'' \<Longrightarrow>
     Manager_init (Some s) = Inl (ValueError ''Unavailable freeze option.'')"
  by (simp add: Manager_init_def init_bogus bind_err_def)

lemma load_bad_part:
  "part \<noteq> ''train'' \<Longrightarrow> part \<noteq> ''test'' \<Longrightarrow>
     sun360h_data_load e part ver b idx rnd = Inl (ValueError ''Unavailable dataset part!'')"
  by (simp add: sun360h_data_load_def resolve_paths_def bind_err_def)

lemma load_bad_version:
  "part = ''train'' \<or> part = ''test'' \<Longrightarrow> ver \<noteq> 0 \<Longrightarrow> ver \<noteq> 1 \<Longrightarrow> ver \<noteq> 2 \<Longrightarrow>
     sun360h_data_load e part ver b idx rnd = Inl (ValueError ''Unavailable dataset version!'')"
  by (auto simp add: sun360h_data_load_def resolve_paths_def bind_err_def Let_def)

section \<open>The loops of the dataset indexer\<close>

lemma filter_neq_upt:
  assumes "q < n"
  shows "filter (\<lambda>k. k \<noteq> q) [0..<n] = [0..<q] @ [Suc q..<n]"
proof -
  have "[0..<n] = [0..<q] @ q # [Suc q..<n]"
    using assms upt_add_eq_append [of 0 q "n - q"] upt_conv_Cons [of q n] by simp
  moreover have "filter (\<lambda>k. k \<noteq> q) [0..<q] = [0..<q]" by (rule filter_True) simp
  moreover have "filter (\<lambda>k. k \<noteq> q) [Suc q..<n] = [Suc q..<n]" by (rule filter_True) simp
  ultimately show ?thesis by simp
qed

lemma py_nth_nat: "r < length xs \<Longrightarrow> py_nth xs (int r) = Inr (xs ! r)"
  by (simp add: py_nth_def)

lemma negative_index_nat:
  assumes "q < 10" "r < 9"
  shows "negative_index (int q) r = Inr (int (if r < q then r else Suc r))"
proof -
  have f: "filter (\<lambda>k. k \<noteq> int q) (map int [0..<10]) = map int ([0..<q] @ [Suc q..<10])"
    using filter_neq_upt [OF assms(1)] by (simp add: filter_map comp_def)
  have l: "length ([0..<q] @ [Suc q..<10]) = 9" using assms(1) by simp
  have n: "([0..<q] @ [Suc q..<10]) ! r = (if r < q then r else Suc r)"
    using assms by (auto simp add: nth_append)
  have "py_nth (map int ([0..<q] @ [Suc q..<10])) (int r) = Inr (map int ([0..<q] @ [Suc q..<10]) ! r)"
    using py_nth_nat [of r "map int ([0..<q] @ [Suc q..<10])"] l assms(2) by simp
  also have "\<dots> = Inr (int (([0..<q] @ [Suc q..<10]) ! r))"
    using l assms(2) by (simp only: nth_map)
  finally show ?thesis unfolding negative_index_def f using n by simp
qed

lemma negative_index_ok:
  assumes "0 \<le> pos" "pos < 10" "r < 9"
  shows "\<exists>k. negative_index pos r = Inr k \<and> k \<noteq> pos \<and> 0 \<le> k \<and> k < 10"
proof -
  have "nat pos < 10" using assms by simp
  from negative_index_nat [OF this assms(3)] assms show ?thesis
    by (auto split: if_splits)
qed

lemma negative_index_all:
  assumes "0 \<le> pos" "pos < 10"
  shows "map (negative_index pos) [0..<9] = map Inr (filter (\<lambda>k. k \<noteq> pos) (map int [0..<10]))"
proof -
  obtain q where q: "pos = int q" "q < 10" using assms by (metis nat_less_iff zero_le_imp_eq_int zless_nat_eq_int_zless nat_int of_nat_less_iff of_nat_numeral)
  let ?xs = "filter (\<lambda>k. k \<noteq> int q) (map int [0..<10])"
  have f: "?xs = map int ([0..<q] @ [Suc q..<10])"
    using filter_neq_upt [OF q(2)] by (simp add: filter_map comp_def)
  have l: "length ?xs = 9" unfolding f using q(2) by simp
  have "map (negative_index (int q)) [0..<9] = map (\<lambda>r. Inr (?xs ! r)) [0..<9]"
    unfolding negative_index_def using l by (simp add: py_nth_def)
  also have "\<dots> = map Inr (map (\<lambda>r. ?xs ! r) [0..<length ?xs])" using l by simp
  also have "\<dots> = map Inr ?xs" by (simp only: map_nth)
  finally show ?thesis using q(1) by simp
qed

lemma load_row_ok:
  assumes "j < length gt" "row_ok e tp (gt ! j)" "r < 9"
  shows "\<exists>t pos k. json_files e (root_path @ tp @ gt ! j ! 0 @ ''.json'') = Some t
           \<and> py_int e (gt ! j ! 1) = Some pos \<and> 0 \<le> pos \<and> pos < 10 \<and> length (candidates t) = 10
           \<and> negative_index pos r = Inr k \<and> k \<noteq> pos \<and> 0 \<le> k \<and> k < 10
           \<and> load_row e tp gt j r = Inr (root_path @ imgs_path @ anchor t,
                                         root_path @ imgs_path @ candidates t ! nat pos,
                                         root_path @ imgs_path @ candidates t ! nat k)"
proof -
  let ?row = "gt ! j"
  from assms(2) obtain t pos where
    len: "2 \<le> length ?row" and
    t: "json_files e (root_path @ tp @ ?row ! 0 @ ''.json'') = Some t" and
    c: "length (candidates t) = 10" and
    p: "py_int e (?row ! 1) = Some pos" "0 \<le> pos" "pos < 10"
    by (auto simp add: row_ok_def split: option.splits)
  obtain k where k: "negative_index pos r = Inr k" "k \<noteq> pos" "0 \<le> k" "k < 10"
    using negative_index_ok [OF p(2,3) assms(3)] by blast
  have 1: "py_nth gt (int j) = Inr ?row" using assms(1) by (simp add: py_nth_def)
  have 2: "py_nth ?row 0 = Inr (?row ! 0)" using len by (auto simp add: py_nth_def)
  have 3: "py_nth ?row 1 = Inr (?row ! 1)" using len by (simp add: py_nth_def)
  have 4: "py_nth (candidates t) pos = Inr (candidates t ! nat pos)" using c p by (simp add: py_nth_def)
  have 5: "py_nth (candidates t) k = Inr (candidates t ! nat k)" using c k by (simp add: py_nth_def)
  have "load_row e tp gt j r = Inr (root_path @ imgs_path @ anchor t,
                                         root_path @ imgs_path @ candidates t ! nat pos,
                                         root_path @ imgs_path @ candidates t ! nat k)"
    unfolding load_row_def using 1 2 3 4 5 t p(1) k(1) by (simp add: bind_err_def)
  then show ?thesis using t p c k by blast
qed

lemma bind_err_Inr:
  "bind_err m f = Inr y \<longleftrightarrow> (\<exists>x. m = Inr x \<and> f x = Inr y)"
  by (cases m) (simp_all add: bind_err_def)

lemma load_rows_Inr:
  assumes "load_rows e tp gt rnd js c = Inr b"
  shows "length (fst b) = length js \<and> length (fst (snd b)) = length js
       \<and> length (snd (snd b)) = length js
       \<and> map Inr (rows_of b) = map (\<lambda>(k, j). load_row e tp gt j (rnd k)) (enumerate c js)"
  using assms
proof (induction js arbitrary: c b)
  case Nil
  then show ?case by (auto simp add: rows_of_def)
next
  case (Cons j js)
  from Cons.prems obtain t where t: "load_row e tp gt j (rnd c) = Inr t"
    and r: "(case t of (a, p, n) \<Rightarrow>
              bind_err (load_rows e tp gt rnd js (Suc c)) (\<lambda>(a_batch, p_batch, n_batch).
                Inr (a # a_batch, p # p_batch, n # n_batch))) = Inr b"
    by (auto simp add: bind_err_Inr)
  obtain a p n where apn: "t = (a, p, n)" by (cases t) auto
  from r apn obtain b' where b': "load_rows e tp gt rnd js (Suc c) = Inr b'"
    and b: "(case b' of (a_batch, p_batch, n_batch) \<Rightarrow>
               Inr (a # a_batch, p # p_batch, n # n_batch)) = (Inr b :: error + batch)"
    by (auto simp add: bind_err_Inr)
  obtain as ps ns where bb: "b' = (as, ps, ns)" by (cases b') auto
  have beq: "b = (a # as, p # ps, n # ns)" using b bb by simp
  from Cons.IH [OF b'] bb have ih:
    "length as = length js" "length ps = length js" "length ns = length js"
    "map Inr (zip as (zip ps ns)) = map (\<lambda>(k, j). load_row e tp gt j (rnd k)) (enumerate (Suc c) js)"
    by (simp_all add: rows_of_def)
  show ?case using ih t apn beq by (simp add: rows_of_def)
qed

lemma load_rows_total:
  assumes "\<forall>j\<in>set js. j < length gt \<and> row_ok e tp (gt ! j)" "\<forall>c. rnd c < 9"
  shows "\<exists>b. load_rows e tp gt rnd js c = Inr b"
  using assms(1)
proof (induction js arbitrary: c)
  case Nil
  show ?case by simp
next
  case (Cons j js)
  have "j < length gt" "row_ok e tp (gt ! j)" "rnd c < 9" using Cons.prems assms(2) by simp_all
  from load_row_ok [OF this] obtain t where t: "load_row e tp gt j (rnd c) = Inr t" by blast
  from Cons.IH [of "Suc c"] Cons.prems obtain b where b: "load_rows e tp gt rnd js (Suc c) = Inr b"
    by auto
  show ?case using t b by (cases t; cases b) (simp add: bind_err_def)
qed

lemma slice_length:
  assumes "length idx = n" "i < n"
  shows "length (slice idx i (min (i + b) n)) = min b (n - i)"
  using assms by (auto simp add: slice_def)

lemma slice_drop:
  assumes "length idx = n"
  shows "drop i idx = slice idx i (min (i + b) n) @ drop (i + b) idx"
proof -
  have "drop i idx = take (min (i + b) n - i) (drop i idx) @ drop (min (i + b) n - i) (drop i idx)"
    by (rule append_take_drop_id [symmetric])
  moreover have "drop (min (i + b) n - i) (drop i idx) = drop (i + b) idx"
  proof (cases "i + b \<le> n")
    case True
    then show ?thesis by (simp add: add.commute)
  next
    case False
    then show ?thesis using assms by (simp add: min_def)
  qed
  ultimately show ?thesis by (simp add: slice_def)
qed

lemma load_batches_step:
  assumes "0 < b" "i < length gt"
  shows "load_batches e tp gt idx rnd b i c =
     bind_err (load_rows e tp gt rnd (slice idx i (min (i + b) (length gt))) c) (\<lambda>x.
     bind_err (load_batches e tp gt idx rnd b (i + b) (c + length (slice idx i (min (i + b) (length gt))))) (\<lambda>result.
     Inr (x # result)))"
  using assms by (subst load_batches.simps) (simp add: Let_def)

lemma load_batches_stop:
  assumes "\<not> (0 < b \<and> i < length gt)"
  shows "load_batches e tp gt idx rnd b i c = Inr []"
  using assms by (subst load_batches.simps) auto

lemma ceil_step:
  assumes "0 < (b::nat)" "i < n"
  shows "(n - i + b - 1) div b = Suc ((n - (i + b) + b - 1) div b)"
proof (cases "i + b \<le> n")
  case True
  define x where "x = n - (i + b) + b - 1"
  have "n - i + b - 1 = x + b" unfolding x_def using True assms by arith
  then have "(n - i + b - 1) div b = (x + b) div b" by (rule arg_cong)
  also have "\<dots> = Suc (x div b)" using assms(1) by simp
  finally show ?thesis unfolding x_def .
next
  case False
  define m where "m = n - i + b - 1"
  define y where "y = n - (i + b) + b - 1"
  have "b * 1 \<le> m" "m < b * Suc 1" unfolding m_def using assms False by arith+
  then have "m div b = 1" by (rule div_nat_eqI)
  moreover have "y < b" unfolding y_def using assms False by arith
  then have "y div b = 0" by (rule div_less)
  ultimately show ?thesis unfolding m_def y_def by arith
qed

lemma load_batches_Inr:
  assumes "load_batches e tp gt idx rnd b i c = Inr bs" "length idx = length gt" "0 < b"
  shows "length bs = (length gt - i + b - 1) div b
       \<and> (\<forall>k<length bs. length (fst (bs ! k)) = min b (length gt - i - k * b)
                          \<and> length (fst (snd (bs ! k))) = min b (length gt - i - k * b)
                          \<and> length (snd (snd (bs ! k))) = min b (length gt - i - k * b))
       \<and> map Inr (concat (map rows_of bs))
           = map (\<lambda>(k, j). load_row e tp gt j (rnd k)) (enumerate c (drop i idx))"
  using assms
proof (induction e tp gt idx rnd b i c arbitrary: bs rule: load_batches.induct)
  case (1 e tp gt idx rnd b i c)
  show ?case
  proof (cases "0 < b \<and> i < length gt")
    case False
    then have "bs = []" using "1.prems"(1) load_batches_stop [OF False] by simp
    moreover have "length gt - i = 0" using False "1.prems"(3) by simp
    moreover have "drop i idx = []" using False "1.prems"(2,3) by simp
    ultimately show ?thesis using "1.prems"(3) by simp
  next
    case True
    let ?js = "slice idx i (min (i + b) (length gt))"
    have b0: "0 < b" and il: "i < length gt" using True by simp_all
    have "bind_err (load_rows e tp gt rnd ?js c) (\<lambda>x.
            bind_err (load_batches e tp gt idx rnd b (i + b) (c + length ?js)) (\<lambda>result.
            Inr (x # result))) = Inr bs"
      using "1.prems"(1) unfolding load_batches_step [OF b0 il] .
    then obtain x where x: "load_rows e tp gt rnd ?js c = Inr x"
      and r1: "bind_err (load_batches e tp gt idx rnd b (i + b) (c + length ?js)) (\<lambda>result.
            Inr (x # result)) = Inr bs"
      unfolding bind_err_Inr by blast
    from r1 obtain rest where rest: "load_batches e tp gt idx rnd b (i + b) (c + length ?js) = Inr rest"
      and bs: "bs = x # rest"
      unfolding bind_err_Inr by blast
    have ih: "length rest = (length gt - (i + b) + b - 1) div b
       \<and> (\<forall>k<length rest. length (fst (rest ! k)) = min b (length gt - (i + b) - k * b)
                          \<and> length (fst (snd (rest ! k))) = min b (length gt - (i + b) - k * b)
                          \<and> length (snd (snd (rest ! k))) = min b (length gt - (i + b) - k * b))
       \<and> map Inr (concat (map rows_of rest))
           = map (\<lambda>(k, j). load_row e tp gt j (rnd k)) (enumerate (c + length ?js) (drop (i + b) idx))"
      using "1.IH" [OF True refl rest "1.prems"(2,3)] .
    have lx: "length (fst x) = length ?js" "length (fst (snd x)) = length ?js"
      "length (snd (snd x)) = length ?js"
      and rx: "map Inr (rows_of x) = map (\<lambda>(k, j). load_row e tp gt j (rnd k)) (enumerate c ?js)"
      using load_rows_Inr [OF x] by simp_all
    have lj: "length ?js = min b (length gt - i)"
      using slice_length [OF "1.prems"(2), of i b] True by simp
    have len: "length bs = (length gt - i + b - 1) div b"
      using ih bs ceil_step [of b i "length gt"] True by simp
    have sizes: "length (fst (bs ! k)) = min b (length gt - i - k * b)
                          \<and> length (fst (snd (bs ! k))) = min b (length gt - i - k * b)
                          \<and> length (snd (snd (bs ! k))) = min b (length gt - i - k * b)"
      if k: "k < length bs" for k
    proof (cases k)
      case 0
      then show ?thesis using bs lx lj by simp
    next
      case (Suc k')
      then have "k' < length rest" using k bs by simp
      moreover have "length gt - (i + b) - k' * b = length gt - i - k * b" using Suc by simp
      ultimately show ?thesis using ih bs Suc by simp
    qed
    have "drop i idx = ?js @ drop (i + b) idx" using slice_drop [OF "1.prems"(2), of i b] .
    then have "enumerate c (drop i idx) = enumerate c ?js @ enumerate (c + length ?js) (drop (i + b) idx)"
      by (metis enumerate_append_eq)
    then have pooled: "map Inr (concat (map rows_of bs))
           = map (\<lambda>(k, j). load_row e tp gt j (rnd k)) (enumerate c (drop i idx))"
      using bs rx ih by simp
    show ?thesis using len sizes pooled by blast
  qed
qed

lemma load_batches_total:
  assumes "\<forall>j\<in>set idx. j < length gt \<and> row_ok e tp (gt ! j)" "\<forall>c. rnd c < 9"
  shows "\<exists>bs. load_batches e tp gt idx rnd b i c = Inr bs"
  using assms
proof (induction e tp gt idx rnd b i c rule: load_batches.induct)
  case (1 e tp gt idx rnd b i c)
  show ?case
  proof (cases "0 < b \<and> i < length gt")
    case False
    then show ?thesis using load_batches_stop [OF False] by simp
  next
    case True
    let ?js = "slice idx i (min (i + b) (length gt))"
    have b0: "0 < b" and il: "i < length gt" using True by simp_all
    have "set ?js \<subseteq> set idx"
      unfolding slice_def by (meson set_take_subset set_drop_subset subset_trans)
    then have "\<forall>j\<in>set ?js. j < length gt \<and> row_ok e tp (gt ! j)" using "1.prems"(1) by blast
    from load_rows_total [OF this "1.prems"(2)]
    obtain x where x: "load_rows e tp gt rnd ?js c = Inr x" by blast
    obtain rest where rest: "load_batches e tp gt idx rnd b (i + b) (c + length ?js) = Inr rest"
      using "1.IH" [OF True refl "1.prems"] by blast
    show ?thesis unfolding load_batches_step [OF b0 il] using x rest by (simp add: bind_err_def)
  qed
qed

lemma data_load_unfold:
  assumes "resolve_paths part ver = Inr (tp, gp)" "csv_files e (root_path @ gp) = Some gt" "0 < b"
  shows "sun360h_data_load e part ver b idx rnd = load_batches e tp gt idx rnd (nat b) 0 0"
  using assms by (simp add: sun360h_data_load_def bind_err_def)

lemma data_load_nonpositive:
  assumes "b \<le> 0" "sun360h_data_load e part ver b idx rnd = Inr bs"
  shows "bs = []"
  using assms
  by (auto simp add: sun360h_data_load_def bind_err_def split: sum.splits option.splits if_splits)

lemma perm_upt:
  assumes "mset idx = mset [0..<n]"
  shows "length idx = n" "\<forall>j\<in>set idx. j < n"
proof -
  show "length idx = n" using assms by (metis length_upt diff_zero size_mset)
  have "set idx = set [0..<n]" using assms by (metis set_mset_mset)
  then show "\<forall>j\<in>set idx. j < n" by simp
qed

lemma data_load_ok:
  assumes "resolve_paths part ver = Inr (tp, gp)" "csv_files e (root_path @ gp) = Some gt"
    "1 \<le> b" "mset idx = mset [0..<length gt]" "\<forall>row\<in>set gt. row_ok e tp row" "\<forall>c. rnd c < 9"
  shows "\<exists>bs. sun360h_data_load e part ver b idx rnd = Inr bs
     \<and> length bs = (length gt + nat b - 1) div nat b
     \<and> (\<forall>k<length bs. length (fst (bs ! k)) = min (nat b) (length gt - k * nat b)
                          \<and> length (fst (snd (bs ! k))) = min (nat b) (length gt - k * nat b)
                          \<and> length (snd (snd (bs ! k))) = min (nat b) (length gt - k * nat b))
     \<and> map Inr (concat (map rows_of bs))
           = map (\<lambda>(k, j). load_row e tp gt j (rnd k)) (enumerate 0 idx)"
proof -
  have b: "0 < b" "0 < nat b" using assms(3) by simp_all
  have len: "length idx = length gt" and rng: "\<forall>j\<in>set idx. j < length gt"
    using perm_upt [OF assms(4)] by simp_all
  have "\<forall>j\<in>set idx. j < length gt \<and> row_ok e tp (gt ! j)" using rng assms(5) by simp
  from load_batches_total [OF this assms(6)]
  obtain bs where bs: "load_batches e tp gt idx rnd (nat b) 0 0 = Inr bs" by blast
  have l: "sun360h_data_load e part ver b idx rnd = Inr bs"
    using data_load_unfold [OF assms(1,2) b(1)] bs by simp
  show ?thesis using l load_batches_Inr [OF bs len b(2)] by simp
qed


lemma full_batch:
  assumes "0 < (b::nat)" "Suc k < (n + b - 1) div b"
  shows "min b (n - k * b) = b"
proof -
  have "Suc (Suc k) \<le> (n + b - 1) div b" using assms(2) by simp
  then have "Suc (Suc k) * b \<le> n + b - 1" using assms(1) by (simp add: less_eq_div_iff_mult_less_eq)
  then have "k * b + b + b \<le> n + b - 1" by (simp add: algebra_simps)
  then have "k * b + b \<le> n" using assms(1) by arith
  then show ?thesis by simp
qed


lemma demo_load:
  "sun360h_data_load (demo_env 1) ''train'' 0 1 [0] zero_draws =
     Inr [([root_path @ imgs_path @ ''a.jpg''], [root_path @ imgs_path @ ''c3.jpg''],
           [root_path @ imgs_path @ ''c0.jpg''])]"
proof -
  have n: "negative_index 3 0 = Inr 0"
    using negative_index_nat [of 3 0] by simp
  have r: "load_row (demo_env 1) ''task_train/'' [[''s0'', ''3'']] 0 0
      = Inr (root_path @ imgs_path @ ''a.jpg'', root_path @ imgs_path @ ''c3.jpg'',
             root_path @ imgs_path @ ''c0.jpg'')"
    using n by (simp add: load_row_def py_nth_def demo_env_def demo_task_def bind_err_def)
  have s: "slice [0] 0 (min (0 + 1) (length [[''s0'', ''3'']])) = [0]" by (simp add: slice_def)
  have b: "load_batches (demo_env 1) ''task_train/'' [[''s0'', ''3'']] [0] zero_draws 1 0 0
     = Inr [([root_path @ imgs_path @ ''a.jpg''], [root_path @ imgs_path @ ''c3.jpg''],
           [root_path @ imgs_path @ ''c0.jpg''])]"
    using load_batches_step [of 1 0 "[[''s0'', ''3'']]" "demo_env 1" "''task_train/''" "[0]" zero_draws 0]
      load_batches_stop [of 1 1 "[[''s0'', ''3'']]" "demo_env 1" "''task_train/''" "[0]" zero_draws 1]
      r s
    by (simp add: bind_err_def zero_draws_def)
  show ?thesis using b
    by (simp add: sun360h_data_load_def resolve_paths_def demo_env_def bind_err_def)
qed

section \<open>Training and testing\<close>

lemma train_one_epoch:
  assumes "epoch m = 1"
  shows "train bk m e idxs rnds w =
     bind_err (train_epoch bk m e (idxs 0) (rnds 0) (w, [])) (\<lambda>(w', out). Inr (w', out @ [Saved]))"
proof -
  have "train_epochs bk m e idxs rnds 0 (Suc 0) (w, []) = train_epoch bk m e (idxs 0) (rnds 0) (w, [])"
    by (cases "train_epoch bk m e (idxs 0) (rnds 0) (w, [])") (simp_all add: bind_err_def)
  then show ?thesis using assms by (simp add: train_def)
qed

lemma train_epoch_no_solver:
  assumes "solver m = None"
  shows "isl (train_epoch bk m e idx rnd (w, out))"
proof (cases "data_loader m e True idx rnd")
  case (Inl err)
  then show ?thesis by (simp add: train_epoch_def bind_err_def)
next
  case (Inr batches)
  show ?thesis
  proof (cases batches)
    case Nil
    then show ?thesis using Inr by (simp add: train_epoch_def bind_err_def py_nth_def)
  next
    case (Cons b bs)
    have "isl (train_batch bk m (w, [], 0) b)"
      using assms by (cases "image_loader bk b") (simp_all add: train_batch_def bind_err_def)
    then obtain err where "train_batch bk m (w, [], 0) b = Inl err"
      by (cases "train_batch bk m (w, [], 0) b") auto
    then show ?thesis using Inr Cons by (simp add: train_epoch_def bind_err_def)
  qed
qed

lemma train_epoch_attribute_error:
  assumes "solver m = None" "data_loader m e True idx rnd = Inr (b # bs)" "image_loader bk b = Inr x"
  shows "train_epoch bk m e idx rnd (w, out) = Inl AttributeError"
  using assms by (simp add: train_epoch_def train_batch_def bind_err_def)

lemma test_ignores_solver: "test (m\<lparr>solver := s\<rparr>) e emb idx rnd = test m e emb idx rnd"
proof -
  have b: "test_batch (m\<lparr>solver := s\<rparr>) emb st b = test_batch m emb st b" for st b
    by (simp add: test_batch_def)
  have "test_batches (m\<lparr>solver := s\<rparr>) emb st bs = test_batches m emb st bs" for st bs
    by (induction bs arbitrary: st) (simp_all add: b)
  then show ?thesis by (simp add: test_def data_loader_def)
qed

lemma train_batches_ok:
  assumes "solver m = Some s" "\<forall>b. \<exists>x. image_loader bk b = Inr x"
  shows "\<exists>w' losses. train_batches bk m (w, el, it) bs = Inr (w', el @ losses, it + length bs)
           \<and> length losses = length bs"
proof (induction bs arbitrary: w el it)
  case Nil
  show ?case by simp
next
  case (Cons b bs)
  obtain x where x: "image_loader bk b = Inr x" using assms(2) by blast
  have st: "train_batch bk m (w, el, it) b = Inr (step_fn bk w x, el @ [loss_fn bk w x], it + 1)"
    using x assms(1) by (simp add: train_batch_def bind_err_def)
  obtain w' losses where r:
    "train_batches bk m (step_fn bk w x, el @ [loss_fn bk w x], it + 1) bs
       = Inr (w', (el @ [loss_fn bk w x]) @ losses, it + 1 + length bs)"
    "length losses = length bs"
    using Cons.IH by blast
  have "train_batches bk m (w, el, it) (b # bs) = Inr (w', el @ (loss_fn bk w x # losses), it + length (b # bs))"
    using st r(1) by (simp add: bind_err_def)
  moreover have "length (loss_fn bk w x # losses) = length (b # bs)" using r(2) by simp
  ultimately show ?case by blast
qed

lemma train_epoch_ok:
  assumes "solver m = Some s" "\<forall>b. \<exists>x. image_loader bk b = Inr x"
    "data_loader m e True idx rnd = Inr batches" "batches \<noteq> []"
  shows "\<exists>w' l. train_epoch bk m e idx rnd (w, out)
           = Inr (w', if length batches mod 50 = 0 then out @ [PrintLoss l] else out)"
proof -
  obtain w' losses where r: "train_batches bk m (w, [], 0) batches = Inr (w', [] @ losses, 0 + length batches)"
    "length losses = length batches"
    using train_batches_ok [OF assms(1,2)] by blast
  have ne: "losses \<noteq> []" using r(2) assms(4) by auto
  then have p: "py_nth losses (- 1) = Inr (losses ! nat (int (length losses) - 1))"
    by (cases losses) (simp_all add: py_nth_def)
  show ?thesis
  proof (cases "length batches mod 50 = 0")
    case True
    then have "train_epoch bk m e idx rnd (w, out)
        = Inr (w', out @ [PrintLoss (losses ! nat (int (length losses) - 1))])"
      using assms(3) r(1) p by (simp add: train_epoch_def bind_err_def)
    then show ?thesis using True by auto
  next
    case False
    then have "train_epoch bk m e idx rnd (w, out) = Inr (w', out)"
      using assms(3) r(1) by (simp add: train_epoch_def bind_err_def)
    then show ?thesis using False by auto
  qed
qed

lemma demo_rows_ok: "\<forall>row\<in>set (replicate n [''s0'', ''3'']). row_ok (demo_env k) ''task_train/'' row"
  by (simp add: row_ok_def demo_env_def demo_task_def)

lemma demo_train_batches:
  assumes "Manager_init f = Inr m" "0 < n"
  shows "\<exists>batches. data_loader m (demo_env n) True (epoch_perm n t) (epoch_draws t) = Inr batches
           \<and> length batches = n"
proof -
  have bsz: "batch_size m = 1" using manager_solver [OF assms(1)] by simp
  have 1: "resolve_paths ''train'' 0 = Inr (''task_train/'', ''gt_train.csv'')"
    by (simp add: resolve_paths_def)
  have 2: "csv_files (demo_env n) (root_path @ ''gt_train.csv'') = Some (replicate n [''s0'', ''3''])"
    by (simp add: demo_env_def)
  have 3: "(1::int) \<le> 1" by simp
  have 4: "mset (epoch_perm n t) = mset [0..<length (replicate n [''s0'', ''3''])]"
    by (simp add: epoch_perm_def)
  have 6: "\<forall>c. epoch_draws t c < 9" by (simp add: epoch_draws_def zero_draws_def)
  from data_load_ok [OF 1 2 3 4 demo_rows_ok 6]
  obtain bs where "sun360h_data_load (demo_env n) ''train'' 0 1 (epoch_perm n t) (epoch_draws t) = Inr bs"
    "length bs = (length (replicate n [''s0'', ''3'']) + nat 1 - 1) div nat 1"
    by blast
  then show ?thesis by (simp add: data_loader_def bsz)
qed

lemma demo_train:
  assumes "Manager_init (Some ''part'') = Inr m" "0 < n"
  shows "\<exists>w' l. train demo_backend m (demo_env n) (epoch_perm n) epoch_draws ()
           = Inr (w', if n mod 50 = 0 then [PrintLoss l, Saved] else [Saved])"
proof -
  have ep: "epoch m = 1" using manager_solver [OF assms(1)] by simp
  obtain s where s: "solver m = Some s"
    using manager_solver [OF assms(1)] by (cases "solver m") auto
  have il: "\<forall>b. \<exists>x. image_loader demo_backend b = Inr x" by (simp add: demo_backend_def)
  obtain batches where b: "data_loader m (demo_env n) True (epoch_perm n 0) (epoch_draws 0) = Inr batches"
    "length batches = n"
    using demo_train_batches [OF assms] by blast
  have ne: "batches \<noteq> []" using b(2) assms(2) by auto
  obtain w' l where "train_epoch demo_backend m (demo_env n) (epoch_perm n 0) (epoch_draws 0) ((), [])
           = Inr (w', if length batches mod 50 = 0 then [] @ [PrintLoss l] else [])"
    using train_epoch_ok [OF s il b(1) ne, of "()" "[]"] by blast
  then have "train demo_backend m (demo_env n) (epoch_perm n) epoch_draws ()
           = Inr (w', if n mod 50 = 0 then [PrintLoss l, Saved] else [Saved])"
    unfolding train_one_epoch [OF ep] using b(2) by (simp add: bind_err_def)
  then show ?thesis by blast
qed









lemma nth_in_others:
  assumes "i < length xs" "i \<noteq> q"
  shows "xs ! i \<in> set (take q xs @ drop (Suc q) xs)"
proof (cases "i < q")
  case True
  then have "take q xs ! i = xs ! i" "i < length (take q xs)" using assms(1) by simp_all
  then have "xs ! i \<in> set (take q xs)" by (metis nth_mem)
  then show ?thesis by simp
next
  case False
  then have q: "Suc q \<le> i" using assms(2) by simp
  then have "drop (Suc q) xs ! (i - Suc q) = xs ! i" "i - Suc q < length (drop (Suc q) xs)"
    using assms(1) by simp_all
  then have "xs ! i \<in> set (drop (Suc q) xs)" by (metis nth_mem)
  then show ?thesis by simp
qed

lemma py_nth_Inr_nonneg:
  assumes "py_nth xs i = Inr x" "0 \<le> i"
  shows "nat i < length xs \<and> x = xs ! nat i"
  using assms by (auto simp add: py_nth_def split: if_splits)

lemma load_row_Inr:
  assumes "load_row e tp gt j r = Inr (a, p, n)"
  shows "\<exists>t pos k pn nn. j < length gt
           \<and> json_files e (root_path @ tp @ gt ! j ! 0 @ ''.json'') = Some t
           \<and> py_int e (gt ! j ! 1) = Some pos
           \<and> py_nth (candidates t) pos = Inr pn
           \<and> negative_index pos r = Inr k
           \<and> py_nth (candidates t) k = Inr nn
           \<and> p = root_path @ imgs_path @ pn \<and> n = root_path @ imgs_path @ nn"
proof -
  from assms obtain row where row: "py_nth gt (int j) = Inr row"
    and 1: "bind_err (py_nth row 0) (\<lambda>sample.
     bind_err (case json_files e (root_path @ tp @ sample @ ''.json'') of
                 None \<Rightarrow> Inl IOError | Some names \<Rightarrow> Inr names) (\<lambda>names.
     bind_err (py_nth row 1) (\<lambda>cell.
     bind_err (case py_int e cell of
                 None \<Rightarrow> Inl (ValueError ''invalid literal for int()'') | Some pos \<Rightarrow> Inr pos) (\<lambda>pos.
     bind_err (py_nth (candidates names) pos) (\<lambda>p.
     bind_err (negative_index pos r) (\<lambda>k.
     bind_err (py_nth (candidates names) k) (\<lambda>n.
     Inr (root_path @ imgs_path @ anchor names,
          root_path @ imgs_path @ p,
          root_path @ imgs_path @ n)))))))) = Inr (a, p, n)"
    unfolding load_row_def bind_err_Inr by blast
  have rj: "j < length gt" "row = gt ! j" using py_nth_Inr_nonneg [OF row] by simp_all
  from 1 obtain sample where s: "py_nth row 0 = Inr sample"
    and 2: "bind_err (case json_files e (root_path @ tp @ sample @ ''.json'') of
                 None \<Rightarrow> Inl IOError | Some names \<Rightarrow> Inr names) (\<lambda>names.
     bind_err (py_nth row 1) (\<lambda>cell.
     bind_err (case py_int e cell of
                 None \<Rightarrow> Inl (ValueError ''invalid literal for int()'') | Some pos \<Rightarrow> Inr pos) (\<lambda>pos.
     bind_err (py_nth (candidates names) pos) (\<lambda>p.
     bind_err (negative_index pos r) (\<lambda>k.
     bind_err (py_nth (candidates names) k) (\<lambda>n.
     Inr (root_path @ imgs_path @ anchor names,
          root_path @ imgs_path @ p,
          root_path @ imgs_path @ n))))))) = Inr (a, p, n)"
    unfolding bind_err_Inr by blast
  have s0: "sample = row ! 0" using py_nth_Inr_nonneg [OF s] by simp
  from 2 obtain t where t0: "(case json_files e (root_path @ tp @ sample @ ''.json'') of
                 None \<Rightarrow> Inl IOError | Some names \<Rightarrow> Inr names) = Inr t"
    and 3: "bind_err (py_nth row 1) (\<lambda>cell.
     bind_err (case py_int e cell of
                 None \<Rightarrow> Inl (ValueError ''invalid literal for int()'') | Some pos \<Rightarrow> Inr pos) (\<lambda>pos.
     bind_err (py_nth (candidates t) pos) (\<lambda>p.
     bind_err (negative_index pos r) (\<lambda>k.
     bind_err (py_nth (candidates t) k) (\<lambda>n.
     Inr (root_path @ imgs_path @ anchor t,
          root_path @ imgs_path @ p,
          root_path @ imgs_path @ n)))))) = Inr (a, p, n)"
    unfolding bind_err_Inr by blast
  have t: "json_files e (root_path @ tp @ sample @ ''.json'') = Some t"
    using t0 by (cases "json_files e (root_path @ tp @ sample @ ''.json'')") simp_all
  from 3 obtain cell where c: "py_nth row 1 = Inr cell"
    and 4: "bind_err (case py_int e cell of
                 None \<Rightarrow> Inl (ValueError ''invalid literal for int()'') | Some pos \<Rightarrow> Inr pos) (\<lambda>pos.
     bind_err (py_nth (candidates t) pos) (\<lambda>p.
     bind_err (negative_index pos r) (\<lambda>k.
     bind_err (py_nth (candidates t) k) (\<lambda>n.
     Inr (root_path @ imgs_path @ anchor t,
          root_path @ imgs_path @ p,
          root_path @ imgs_path @ n))))) = Inr (a, p, n)"
    unfolding bind_err_Inr by blast
  have c1: "cell = row ! 1" using py_nth_Inr_nonneg [OF c] by simp
  from 4 obtain pos where p0: "(case py_int e cell of
                 None \<Rightarrow> Inl (ValueError ''invalid literal for int()'') | Some pos \<Rightarrow> Inr pos) = Inr pos"
    and 5: "bind_err (py_nth (candidates t) pos) (\<lambda>p.
     bind_err (negative_index pos r) (\<lambda>k.
     bind_err (py_nth (candidates t) k) (\<lambda>n.
     Inr (root_path @ imgs_path @ anchor t,
          root_path @ imgs_path @ p,
          root_path @ imgs_path @ n)))) = Inr (a, p, n)"
    unfolding bind_err_Inr by blast
  have pos: "py_int e cell = Some pos"
    using p0 by (cases "py_int e cell") simp_all
  from 5 obtain pn k nn where pn: "py_nth (candidates t) pos = Inr pn"
    and k: "negative_index pos r = Inr k" and nn: "py_nth (candidates t) k = Inr nn"
    and res: "(Inr (root_path @ imgs_path @ anchor t, root_path @ imgs_path @ pn,
                   root_path @ imgs_path @ nn) :: error + string \<times> string \<times> string) = Inr (a, p, n)"
    unfolding bind_err_Inr by blast
  have "p = root_path @ imgs_path @ pn" "n = root_path @ imgs_path @ nn" using res by simp_all
  then show ?thesis using rj t pos pn k nn s0 c1 by blast
qed

lemma load_row_positive_unique:
  assumes "load_row e tp gt j r = Inr (a, p, n)" "positive_unique e tp (gt ! j)" "r < 9"
  shows "n \<noteq> p"
proof -
  from load_row_Inr [OF assms(1)] obtain t pos k pn nn where
    t: "json_files e (root_path @ tp @ gt ! j ! 0 @ ''.json'') = Some t" and
    pos: "py_int e (gt ! j ! 1) = Some pos" and
    pn: "py_nth (candidates t) pos = Inr pn" and
    k: "negative_index pos r = Inr k" and
    nn: "py_nth (candidates t) k = Inr nn" and
    eq: "p = root_path @ imgs_path @ pn" "n = root_path @ imgs_path @ nn"
    by blast
  have u: "0 \<le> pos" "pos < 10"
    "candidates t ! nat pos \<notin> set (take (nat pos) (candidates t) @ drop (Suc (nat pos)) (candidates t))"
    using assms(2) t pos by (simp_all add: positive_unique_def)
  obtain k' where k': "negative_index pos r = Inr k'" "k' \<noteq> pos" "0 \<le> k'" "k' < 10"
    using negative_index_ok [OF u(1,2) assms(3)] by blast
  have kk: "k \<noteq> pos" "0 \<le> k" using k k' by simp_all
  have p1: "pn = candidates t ! nat pos" using py_nth_Inr_nonneg [OF pn u(1)] by simp
  have n1: "nat k < length (candidates t)" "nn = candidates t ! nat k"
    using py_nth_Inr_nonneg [OF nn kk(2)] by simp_all
  have "nat k \<noteq> nat pos" using kk u(1) by simp
  then have "candidates t ! nat k \<in> set (take (nat pos) (candidates t) @ drop (Suc (nat pos)) (candidates t))"
    using nth_in_others [OF n1(1)] by simp
  then have "nn \<noteq> pn" using u(3) p1 n1(2) by auto
  then show ?thesis using eq by simp
qed

lemma concat_nth_uniform:
  assumes "q < length xss" "\<forall>k<q. length (xss ! k) = b" "i < length (xss ! q)"
  shows "q * b + i < length (concat xss) \<and> concat xss ! (q * b + i) = xss ! q ! i"
  using assms
proof (induction xss arbitrary: q)
  case Nil
  then show ?case by simp
next
  case (Cons xs xss)
  show ?case
  proof (cases q)
    case 0
    then show ?thesis using Cons.prems by (simp add: nth_append)
  next
    case (Suc q')
    have l: "length xs = b" using Cons.prems(2) Suc by (metis nth_Cons_0 zero_less_Suc)
    have a: "q' < length xss" using Cons.prems(1) Suc by simp
    have b: "\<forall>k<q'. length (xss ! k) = b"
    proof (intro allI impI)
      fix k assume "k < q'"
      then have "Suc k < q" using Suc by simp
      then have "length ((xs # xss) ! Suc k) = b" using Cons.prems(2) by blast
      then show "length (xss ! k) = b" by simp
    qed
    have c: "i < length (xss ! q')" using Cons.prems(3) Suc by simp
    from Cons.IH [OF a b c] have ih: "q' * b + i < length (concat xss)"
      "concat xss ! (q' * b + i) = xss ! q' ! i" by simp_all
    have e: "q * b + i = length xs + (q' * b + i)" using Suc l by simp
    show ?thesis unfolding e using ih Suc by (simp add: nth_append)
  qed
qed

lemma batch_row_source:
  assumes "load_batches e tp gt idx rnd b 0 0 = Inr bs" "0 < b" "length idx = length gt"
    "q < length bs" "i < length (fst (snd (bs ! q)))"
  shows "q * b + i < length idx
     \<and> load_row e tp gt (idx ! (q * b + i)) (rnd (q * b + i))
         = Inr (fst (bs ! q) ! i, fst (snd (bs ! q)) ! i, snd (snd (bs ! q)) ! i)"
proof -
  let ?n = "length gt"
  let ?F = "\<lambda>(k, j). load_row e tp gt j (rnd k)"
  from load_batches_Inr [OF assms(1,3,2)] have
    len: "length bs = (?n - 0 + b - 1) div b" and
    sz: "\<forall>k<length bs. length (fst (bs ! k)) = min b (?n - 0 - k * b)
                          \<and> length (fst (snd (bs ! k))) = min b (?n - 0 - k * b)
                          \<and> length (snd (snd (bs ! k))) = min b (?n - 0 - k * b)" and
    pooled: "map Inr (concat (map rows_of bs)) = map ?F (enumerate 0 (drop 0 idx))"
    by blast+
  have rl: "length (rows_of (bs ! k)) = min b (?n - k * b)" if "k < length bs" for k
  proof -
    obtain a p n where e: "bs ! k = (a, p, n)" by (cases "bs ! k") auto
    have "length a = min b (?n - k * b)" "length p = min b (?n - k * b)" "length n = min b (?n - k * b)"
      using sz that e by auto
    then show ?thesis using e by (simp add: rows_of_def)
  qed
  have full: "\<forall>k<q. length (map rows_of bs ! k) = b"
  proof (intro allI impI)
    fix k assume k: "k < q"
    then have kl: "Suc k < length bs" "k < length bs" using assms(4) by simp_all
    have "min b (?n - k * b) = b" using full_batch [OF assms(2), of k ?n] kl(1) len by simp
    then show "length (map rows_of bs ! k) = b" using rl [OF kl(2)] kl(2) by simp
  qed
  obtain a p n where e: "bs ! q = (a, p, n)" by (cases "bs ! q") auto
  have ll: "length a = length p" "length n = length p" using sz assms(4) e by auto
  have ip: "i < length p" using assms(5) e by simp
  have ri: "i < length (map rows_of bs ! q)" "map rows_of bs ! q ! i = (a ! i, p ! i, n ! i)"
    using e ll ip assms(4) by (simp_all add: rows_of_def)
  have ql: "q < length (map rows_of bs)" using assms(4) by simp
  from concat_nth_uniform [OF ql full ri(1)] have
    pl: "q * b + i < length (concat (map rows_of bs))" and
    pv: "concat (map rows_of bs) ! (q * b + i) = (a ! i, p ! i, n ! i)"
    using ri(2) by simp_all
  have "length (map Inr (concat (map rows_of bs)) :: (error + string \<times> string \<times> string) list)
      = length (map ?F (enumerate 0 (drop 0 idx)))"
    using pooled by simp
  then have cl: "length (concat (map rows_of bs)) = length idx" by simp
  have pi: "q * b + i < length idx" using pl cl by simp
  have "(map Inr (concat (map rows_of bs)) :: (error + string \<times> string \<times> string) list) ! (q * b + i)
      = map ?F (enumerate 0 (drop 0 idx)) ! (q * b + i)"
    using pooled by simp
  then have "(Inr (concat (map rows_of bs) ! (q * b + i)) :: error + string \<times> string \<times> string)
      = ?F (enumerate 0 idx ! (q * b + i))"
    using pl pi by simp
  then have "load_row e tp gt (idx ! (q * b + i)) (rnd (q * b + i)) = Inr (a ! i, p ! i, n ! i)"
    using pv pi by (simp add: nth_enumerate_eq)
  then show ?thesis using pi e by simp
qed

lemma mixed_load:
  "sun360h_data_load mixed_env ''train'' 0 1 [0, 1] zero_draws =
     Inr [([root_path @ imgs_path @ ''a.jpg''], [root_path @ imgs_path @ ''x.jpg''],
           [root_path @ imgs_path @ ''x.jpg'']),
          ([root_path @ imgs_path @ ''a.jpg''], [root_path @ imgs_path @ ''c0.jpg''],
           [root_path @ imgs_path @ ''c1.jpg''])]"
proof -
  let ?gt = "[[''s0'', ''0''], [''s1'', ''0'']]"
  have n: "negative_index 0 0 = Inr 1"
    using negative_index_nat [of 0 0] by simp
  have r0: "load_row mixed_env ''task_train/'' ?gt 0 0
      = Inr (root_path @ imgs_path @ ''a.jpg'', root_path @ imgs_path @ ''x.jpg'',
             root_path @ imgs_path @ ''x.jpg'')"
    using n by (simp add: load_row_def py_nth_def mixed_env_def dup_task_def bind_err_def)
  have r1: "load_row mixed_env ''task_train/'' ?gt 1 0
      = Inr (root_path @ imgs_path @ ''a.jpg'', root_path @ imgs_path @ ''c0.jpg'',
             root_path @ imgs_path @ ''c1.jpg'')"
    using n by (simp add: load_row_def py_nth_def mixed_env_def demo_task_def bind_err_def)
  have s0: "slice [0, 1] 0 (min (0 + 1) (length ?gt)) = [0]" by (simp add: slice_def)
  have s1: "slice [0, 1] 1 (min (1 + 1) (length ?gt)) = [1]" by (simp add: slice_def)
  have b2: "load_batches mixed_env ''task_train/'' ?gt [0, 1] zero_draws 1 (Suc (Suc 0)) (Suc (Suc 0)) = Inr []"
    using load_batches_stop [of 1 "Suc (Suc 0)" ?gt mixed_env "''task_train/''" "[0, 1]" zero_draws "Suc (Suc 0)"]
    by simp
  have b1: "load_batches mixed_env ''task_train/'' ?gt [0, 1] zero_draws 1 1 1
     = Inr [([root_path @ imgs_path @ ''a.jpg''], [root_path @ imgs_path @ ''c0.jpg''],
           [root_path @ imgs_path @ ''c1.jpg''])]"
    using load_batches_step [of 1 1 ?gt mixed_env "''task_train/''" "[0, 1]" zero_draws 1] r1 s1 b2
    by (simp add: bind_err_def zero_draws_def)
  have b0: "load_batches mixed_env ''task_train/'' ?gt [0, 1] zero_draws 1 0 0
     = Inr [([root_path @ imgs_path @ ''a.jpg''], [root_path @ imgs_path @ ''x.jpg''],
           [root_path @ imgs_path @ ''x.jpg'']),
          ([root_path @ imgs_path @ ''a.jpg''], [root_path @ imgs_path @ ''c0.jpg''],
           [root_path @ imgs_path @ ''c1.jpg''])]"
    using load_batches_step [of 1 0 ?gt mixed_env "''task_train/''" "[0, 1]" zero_draws 0] r0 s0 b1
    by (simp add: bind_err_def zero_draws_def)
  show ?thesis using b0
    by (simp add: sun360h_data_load_def resolve_paths_def mixed_env_def bind_err_def)
qed

section \<open>The claims\<close>

text \<open>
  C1. For each of the three freeze modes (no mode, \<^verbatim>\<open>'part'\<close>, \<^verbatim>\<open>'all'\<close>) the
  network is built, and on a batch of shape \<open>(N, 3, 227, 227)\<close> with \<open>N \<ge> 1\<close> the
  forward pass returns a tensor of shape \<open>(N, 512)\<close>: no assertion and no reshape of
  \<^verbatim>\<open>forward\<close> fails, whatever numbers the layers compute.
\<close>

theorem forward_shape:
  assumes "freeze \<in> {None, Some ''part'', Some ''all''}" "1 \<le> N" "shape X = [N, 3, 227, 227]"
  shows "\<exists>net Y. BilinearAlex_init freeze = Inr net \<and> forward sem net X = Inr Y \<and> shape Y = [N, 512]"
proof -
  obtain net where n: "BilinearAlex_init freeze = Inr net"
     "map kind (features net) = map kind alexnet_features"
     "map kind (bfc net) = map kind (butlast alexnet_classifier @ [new_module (Linear 4096 512)])"
     "kind (fc net) = Linear (512 ^ 2) 512"
    using init_kinds [OF assms(1)] by blast
  have "0 < N" using assms(2) by simp
  then show ?thesis using forward_by_kinds [OF n(2,3,4) _ assms(3), of sem] n(1) by blast
qed

theorem forward_shape_witness:
  "\<exists>net Y. BilinearAlex_init (Some ''part'') = Inr net
      \<and> forward (\<lambda>m t. []) net \<lparr>shape = [1, 3, 227, 227], data = ([] :: int list)\<rparr> = Inr Y
      \<and> shape Y = [1, 512]"
  using forward_shape [of "Some ''part''" 1 "\<lparr>shape = [1, 3, 227, 227], data = ([] :: int list)\<rparr>" "\<lambda>m t. []"]
  by simp

text \<open>
  C2. Built without a freeze mode (\<^verbatim>\<open>freeze=None\<close>, the mode the specification
  calls \<open>none\<close>), the network is constructed and each of its 18 parameters, in the
  feature extractor, the bilinear sub-head and the final projection, has
  \<^verbatim>\<open>requires_grad\<close> set.
\<close>

theorem init_none_all_trainable:
  "\<exists>net. BilinearAlex_init None = Inr net
     \<and> list_all snd (parameters net)
     \<and> length (parameters net) = 18
     \<and> trainable net = map fst (parameters net)"
  by (simp add: BilinearAlex_init_def truthy_def alexnet_features_def alexnet_classifier_def
        new_param_def parameters_def trainable_def stack_parameters_def)

text \<open>
  C3. On a batch of \<open>N\<close> vectors of length 512 the pooling step (lines 40 to 43)
  succeeds and returns \<open>N\<close> rows of \<open>512\<^sup>2 = 262144\<close> values; in row \<open>n\<close> the value
  at position \<open>i * 512 + j\<close> is the product of the entries \<open>i\<close> and \<open>j\<close> of the
  \<open>n\<close>-th vector, which is the flattened outer product of the vector with itself.
\<close>

theorem bilinear_pool_outer_product:
  assumes "shape X = [N, 512]" "length (data X) = N * 512" "n < N" "i < 512" "j < 512"
  shows "\<exists>Y. bilinear_pool N X = Inr Y \<and> shape Y = [N, 262144] \<and> length (data Y) = N * 262144 \<and>
           data Y ! (n * 262144 + i * 512 + j) = data X ! (n * 512 + i) * data X ! (n * 512 + j)"
proof -
  let ?f = "\<lambda>idx. data X ! (idx div (512 * 512) * 512 + (idx div 512) mod 512)
                              * data X ! (idx div (512 * 512) * 512 + idx mod 512)"
  let ?Y = "\<lparr>shape = [N, 512 ^ 2], data = map ?f [0..<N * 512 * 512]\<rparr>"
  have "0 < N" using assms(3) by simp
  then have p: "bilinear_pool N X = Inr ?Y" using pool_general [OF assms(1,2)] by simp
  have b: "n * 262144 + i * 512 + j < N * 262144" using idx_bound [OF assms(3,4,5)] by simp
  have d1: "(n * 262144 + i * 512 + j) div 262144 = n" using idx_div [OF assms(4,5), of n] by simp
  have d2: "((n * 262144 + i * 512 + j) div 512) mod 512 = i" using idx_mid [OF assms(4,5), of n] by simp
  have d3: "(n * 262144 + i * 512 + j) mod 512 = j" using idx_low [OF assms(5), of n i] by simp
  have e: "data ?Y ! (n * 262144 + i * 512 + j) = data X ! (n * 512 + i) * data X ! (n * 512 + j)"
    using b by (simp add: d1 d2 d3 mult.commute [of N])
  show ?thesis using p e by simp
qed

theorem bilinear_pool_outer_product_witness:
  "\<exists>Y. bilinear_pool 1 \<lparr>shape = [1, 512], data = replicate 512 (3 :: int)\<rparr> = Inr Y
     \<and> shape Y = [1, 262144] \<and> length (data Y) = 262144 \<and> data Y ! (7 * 512 + 9) = 9"
  using bilinear_pool_outer_product [of "\<lparr>shape = [1, 512], data = replicate 512 (3 :: int)\<rparr>" 1 0 7 9]
  by simp

text \<open>
  C4. Built with \<^verbatim>\<open>'all'\<close>, the network has no parameter with gradients enabled.
  Built with \<^verbatim>\<open>'part'\<close>, its trainable parameters are exactly the weight and
  bias of the last layer of the bilinear sub-head (index 6 of \<open>bfc\<close>) and of the
  final projection. Whenever the manager is constructed, it holds no optimizer if the
  freeze mode is \<^verbatim>\<open>'all'\<close>, and otherwise an SGD optimizer (learning rate 0.001,
  momentum 0.9) over exactly the trainable parameters of its network; and it is
  constructed for each of the three modes.
\<close>

theorem freeze_modes_and_optimizer:
  "(\<exists>net. BilinearAlex_init (Some ''all'') = Inr net \<and> trainable net = [])
   \<and> (\<exists>net. BilinearAlex_init (Some ''part'') = Inr net
         \<and> trainable net = [(Bfc, 6, Weight), (Bfc, 6, Bias), (Fc, 0, Weight), (Fc, 0, Bias)])
   \<and> (Manager_init f = Inr m \<longrightarrow>
         BilinearAlex_init f = Inr (mgr_net m)
         \<and> (case solver m of
               None \<Rightarrow> f = Some ''all''
             | Some s \<Rightarrow> f \<noteq> Some ''all'' \<and> opt_params s = trainable (mgr_net m)
                          \<and> lr s = 1 / 1000 \<and> momentum s = 9 / 10))
   \<and> (f \<in> {None, Some ''part'', Some ''all''} \<longrightarrow> (\<exists>m'. Manager_init f = Inr m'))"
  using trainable_all trainable_part manager_solver [of f m] manager_total [of f]
  by blast

theorem freeze_modes_and_optimizer_witness:
  "\<exists>m s. Manager_init (Some ''part'') = Inr m \<and> solver m = Some s
      \<and> opt_params s = [(Bfc, 6, Weight), (Bfc, 6, Bias), (Fc, 0, Weight), (Fc, 0, Bias)]"
proof -
  obtain m where m: "Manager_init (Some ''part'') = Inr m"
    using freeze_modes_and_optimizer [of "Some ''part''"] by blast
  have n: "BilinearAlex_init (Some ''part'') = Inr (mgr_net m)"
    and c: "(case solver m of
               None \<Rightarrow> Some ''part'' = Some ''all''
             | Some s \<Rightarrow> Some ''part'' \<noteq> Some ''all'' \<and> opt_params s = trainable (mgr_net m)
                          \<and> lr s = 1 / 1000 \<and> momentum s = 9 / 10)"
    using freeze_modes_and_optimizer [of "Some ''part''" m] m by blast+
  obtain s where s: "solver m = Some s" "opt_params s = trainable (mgr_net m)"
    using c by (cases "solver m") auto
  have "trainable (mgr_net m) = [(Bfc, 6, Weight), (Bfc, 6, Bias), (Fc, 0, Weight), (Fc, 0, Bias)]"
    using freeze_modes_and_optimizer [of "Some ''part''" m] n by auto
  then show ?thesis using m s by auto
qed



text \<open>
  C6, as stated, fails where two candidates of a task file carry the same name: with
  the positive at index 0 and the draw 0 the negative is the candidate at index 1, and
  the emitted negative path is the emitted positive path.
\<close>

theorem duplicate_candidates_same_path:
  "sun360h_data_load dup_env ''train'' 0 1 [0] zero_draws =
     Inr [([root_path @ imgs_path @ ''a.jpg''], [root_path @ imgs_path @ ''x.jpg''],
           [root_path @ imgs_path @ ''x.jpg''])]"
proof -
  have n: "negative_index 0 0 = Inr 1"
    using negative_index_nat [of 0 0] by simp
  have r: "load_row dup_env ''task_train/'' [[''s0'', ''0'']] 0 0
      = Inr (root_path @ imgs_path @ ''a.jpg'', root_path @ imgs_path @ ''x.jpg'',
             root_path @ imgs_path @ ''x.jpg'')"
    using n by (simp add: load_row_def py_nth_def dup_env_def dup_task_def bind_err_def)
  have s: "slice [0] 0 (min (0 + 1) (length [[''s0'', ''0'']])) = [0]" by (simp add: slice_def)
  have b: "load_batches dup_env ''task_train/'' [[''s0'', ''0'']] [0] zero_draws 1 0 0
     = Inr [([root_path @ imgs_path @ ''a.jpg''], [root_path @ imgs_path @ ''x.jpg''],
           [root_path @ imgs_path @ ''x.jpg''])]"
    using load_batches_step [of 1 0 "[[''s0'', ''0'']]" dup_env "''task_train/''" "[0]" zero_draws 0]
      load_batches_stop [of 1 1 "[[''s0'', ''0'']]" dup_env "''task_train/''" "[0]" zero_draws 1]
      r s
    by (simp add: bind_err_def zero_draws_def)
  show ?thesis using b
    by (simp add: sun360h_data_load_def resolve_paths_def dup_env_def bind_err_def)
qed

text \<open>
  C6, amended. For a positive index from 0 to 9 and a draw below 9 the negative index
  is a candidate index from 0 to 9 other than the positive index, and the nine draws
  reach the nine other indices once each (so a uniform draw gives a uniform negative).
  Whenever the indexer returns, row \<open>i\<close> of batch \<open>q\<close> is the triplet of the table row
  \<open>idx ! (q * batch + i)\<close>; if that row has its positive index from 0 to 9 and no
  other candidate of its task file carries the positive's name, the negative path at
  this position differs from the positive path. Nothing is asked of the other rows of
  the table.
\<close>

theorem negative_differs_from_positive:
  assumes "resolve_paths part ver = Inr (tp, gp)" "csv_files e (root_path @ gp) = Some gt"
    "mset idx = mset [0..<length gt]" "\<forall>c. rnd c < 9"
    "sun360h_data_load e part ver b idx rnd = Inr bs"
    "q < length bs" "i < length (fst (snd (bs ! q)))"
    "positive_unique e tp (gt ! (idx ! (q * nat b + i)))"
  shows "snd (snd (bs ! q)) ! i \<noteq> fst (snd (bs ! q)) ! i
     \<and> load_row e tp gt (idx ! (q * nat b + i)) (rnd (q * nat b + i))
         = Inr (fst (bs ! q) ! i, fst (snd (bs ! q)) ! i, snd (snd (bs ! q)) ! i)
     \<and> (\<forall>pos d. 0 \<le> pos \<and> pos < 10 \<and> d < 9 \<longrightarrow>
           (\<exists>k. negative_index pos d = Inr k \<and> k \<noteq> pos \<and> 0 \<le> k \<and> k < 10))
     \<and> (\<forall>pos. 0 \<le> pos \<and> pos < 10 \<longrightarrow>
           map (negative_index pos) [0..<9] = map Inr (filter (\<lambda>k. k \<noteq> pos) (map int [0..<10])))"
proof -
  have b: "0 < b"
  proof (rule ccontr)
    assume "\<not> 0 < b"
    then have "bs = []" using data_load_nonpositive [OF _ assms(5)] by simp
    then show False using assms(6) by simp
  qed
  then have nb: "0 < nat b" by simp
  have len: "length idx = length gt" using perm_upt [OF assms(3)] by simp
  have lb: "load_batches e tp gt idx rnd (nat b) 0 0 = Inr bs"
    using data_load_unfold [OF assms(1,2) b, of idx rnd] assms(5) by simp
  from batch_row_source [OF lb nb len assms(6,7)] have
    src: "load_row e tp gt (idx ! (q * nat b + i)) (rnd (q * nat b + i))
         = Inr (fst (bs ! q) ! i, fst (snd (bs ! q)) ! i, snd (snd (bs ! q)) ! i)"
    by simp
  have r: "rnd (q * nat b + i) < 9" using assms(4) by simp
  have paths: "snd (snd (bs ! q)) ! i \<noteq> fst (snd (bs ! q)) ! i"
    using load_row_positive_unique [OF src assms(8) r] .
  have idx1: "\<forall>pos d. 0 \<le> pos \<and> pos < 10 \<and> d < 9 \<longrightarrow>
           (\<exists>k. negative_index pos d = Inr k \<and> k \<noteq> pos \<and> 0 \<le> k \<and> k < 10)"
    using negative_index_ok by blast
  have idx2: "\<forall>pos. 0 \<le> pos \<and> pos < 10 \<longrightarrow>
           map (negative_index pos) [0..<9] = map Inr (filter (\<lambda>k. k \<noteq> pos) (map int [0..<10]))"
    using negative_index_all by blast
  show ?thesis by (intro conjI) (rule paths src idx1 idx2)+
qed

theorem negative_differs_from_positive_witness:
  "sun360h_data_load mixed_env ''train'' 0 1 [0, 1] zero_draws =
     Inr [([root_path @ imgs_path @ ''a.jpg''], [root_path @ imgs_path @ ''x.jpg''],
           [root_path @ imgs_path @ ''x.jpg'']),
          ([root_path @ imgs_path @ ''a.jpg''], [root_path @ imgs_path @ ''c0.jpg''],
           [root_path @ imgs_path @ ''c1.jpg''])]
   \<and> root_path @ imgs_path @ ''c1.jpg'' \<noteq> root_path @ imgs_path @ ''c0.jpg''
   \<and> load_row mixed_env ''task_train/'' [[''s0'', ''0''], [''s1'', ''0'']] 1 (zero_draws 1)
       = Inr (root_path @ imgs_path @ ''a.jpg'', root_path @ imgs_path @ ''c0.jpg'',
              root_path @ imgs_path @ ''c1.jpg'')"
proof -
  let ?gt = "[[''s0'', ''0''], [''s1'', ''0'']]"
  have 1: "resolve_paths ''train'' 0 = Inr (''task_train/'', ''gt_train.csv'')"
    by (simp add: resolve_paths_def)
  have 2: "csv_files mixed_env (root_path @ ''gt_train.csv'') = Some ?gt"
    by (simp add: mixed_env_def)
  have u: "[0..<2] = [0, 1 :: nat]" by code_simp
  have 3: "mset [0, 1] = mset [0..<length ?gt]" by (simp add: u)
  have 4: "\<forall>c. zero_draws c < 9" by (simp add: zero_draws_def)
  let ?bs = "[([root_path @ imgs_path @ ''a.jpg''], [root_path @ imgs_path @ ''x.jpg''],
           [root_path @ imgs_path @ ''x.jpg'']),
          ([root_path @ imgs_path @ ''a.jpg''], [root_path @ imgs_path @ ''c0.jpg''],
           [root_path @ imgs_path @ ''c1.jpg''])]"
  have 6: "1 < length ?bs" by simp
  have 7: "0 < length (fst (snd (?bs ! 1)))" by simp
  have 8: "positive_unique mixed_env ''task_train/'' (?gt ! ([0, 1] ! (1 * nat 1 + 0)))"
    by (simp add: positive_unique_def mixed_env_def demo_task_def)
  note t = negative_differs_from_positive [OF 1 2 3 4 mixed_load 6 7 8]
  have a: "root_path @ imgs_path @ ''c1.jpg'' \<noteq> root_path @ imgs_path @ ''c0.jpg''"
    using t by simp
  have b: "load_row mixed_env ''task_train/'' ?gt 1 (zero_draws 1)
       = Inr (root_path @ imgs_path @ ''a.jpg'', root_path @ imgs_path @ ''c0.jpg'',
              root_path @ imgs_path @ ''c1.jpg'')"
    using t by simp
  show ?thesis using mixed_load a b by blast
qed



text \<open>
  C8, as stated, fails for the empty string: \<^verbatim>\<open>if freeze:\<close> skips
  \<^verbatim>\<open>_freeze\<close> for it, so the construction returns a network.
\<close>

theorem empty_freeze_string_accepted: "\<not> isl (BilinearAlex_init (Some []))"
  by (simp add: BilinearAlex_init_def truthy_def)

text \<open>
  C8, amended. A non-empty freeze string other than \<^verbatim>\<open>'part'\<close> and
  \<^verbatim>\<open>'all'\<close> makes the construction of the network, and of the manager, fail
  with \<^verbatim>\<open>ValueError('Unavailable freeze option.')\<close>; the empty string is
  treated as no freeze mode. Loading the dataset with a partition other than
  \<^verbatim>\<open>'train'\<close> and \<^verbatim>\<open>'test'\<close>, or with a valid partition and a version
  other than 0, 1, 2, fails with the \<^verbatim>\<open>ValueError\<close> of that check, whatever
  the tables, the permutation and the draws are. In each case the failure is the
  result of the call: no manager is built and no batch is produced.
\<close>

theorem invalid_configuration:
  "(s \<noteq> [] \<and> s \<noteq> ''part'' \<and> s \<noteq> ''all'' \<longrightarrow>
      BilinearAlex_init (Some s) = Inl (ValueError ''Unavailable freeze option.'')
      \<and> Manager_init (Some s) = Inl (ValueError ''Unavailable freeze option.''))
   \<and> BilinearAlex_init (Some []) = BilinearAlex_init None
   \<and> (part \<noteq> ''train'' \<and> part \<noteq> ''test'' \<longrightarrow>
        sun360h_data_load e part ver b idx rnd = Inl (ValueError ''Unavailable dataset part!''))
   \<and> ((part = ''train'' \<or> part = ''test'') \<and> ver \<noteq> 0 \<and> ver \<noteq> 1 \<and> ver \<noteq> 2 \<longrightarrow>
        sun360h_data_load e part ver b idx rnd = Inl (ValueError ''Unavailable dataset version!''))"
  using init_bogus [of s] manager_bogus [of s] init_empty_string
    load_bad_part [of part e ver b idx rnd] load_bad_version [of part ver e b idx rnd]
  by blast

theorem invalid_configuration_witness:
  "BilinearAlex_init (Some ''bogus'') = Inl (ValueError ''Unavailable freeze option.'')
   \<and> sun360h_data_load no_files ''validation'' 0 4 [] zero_draws
        = Inl (ValueError ''Unavailable dataset part!'')
   \<and> sun360h_data_load no_files ''train'' 5 4 [] zero_draws
        = Inl (ValueError ''Unavailable dataset version!'')"
  using invalid_configuration [of "''bogus''" "''validation''" no_files 0 4 "[]" zero_draws]
    invalid_configuration [of "''bogus''" "''train''" no_files 5 4 "[]" zero_draws]
  by simp

text \<open>
  C9 asks for a loss report at every 50th batch of an epoch. The test
  \<^verbatim>\<open>iter_num%50 == 0\<close> is evaluated once, after the batch loop: the manager
  built by \<^verbatim>\<open>main\<close> (freeze mode \<^verbatim>\<open>'part'\<close>, batch size 1), trained on 75
  rows, processes batch 50 and prints no loss at all; trained on 100 rows it prints
  one loss, after batch 100, and none at batch 50.
\<close>

theorem loss_report_only_at_epoch_end:
  "\<exists>m. Manager_init (Some ''part'') = Inr m
     \<and> (\<exists>w'. train demo_backend m (demo_env 75) (epoch_perm 75) epoch_draws () = Inr (w', [Saved]))
     \<and> (\<exists>w' l. train demo_backend m (demo_env 100) (epoch_perm 100) epoch_draws ()
                  = Inr (w', [PrintLoss l, Saved]))"
proof -
  obtain m where m: "Manager_init (Some ''part'') = Inr m"
    using manager_total [of "Some ''part''"] by auto
  have a: "\<exists>w'. train demo_backend m (demo_env 75) (epoch_perm 75) epoch_draws () = Inr (w', [Saved])"
    using demo_train [OF m, of 75] by simp
  have b: "\<exists>w' l. train demo_backend m (demo_env 100) (epoch_perm 100) epoch_draws ()
                  = Inr (w', [PrintLoss l, Saved])"
    using demo_train [OF m, of 100] by simp
  show ?thesis using m a b by blast
qed

text \<open>
  C10. The manager is constructed with \<^verbatim>\<open>'all'\<close> and holds no optimizer. Its
  \<^verbatim>\<open>train\<close> then never returns normally; when the indexer yields at least one
  batch and the images of the first batch load, the error is the
  \<^verbatim>\<open>AttributeError\<close> of \<^verbatim>\<open>self._solver.zero_grad()\<close>, raised before any
  forward pass. \<^verbatim>\<open>test\<close> does not read the optimizer: its result is the same
  whatever \<open>solver\<close> holds.
\<close>

theorem train_fails_when_frozen:
  "\<exists>m. Manager_init (Some ''all'') = Inr m \<and> solver m = None
     \<and> isl (train bk m e idxs rnds w)
     \<and> (\<forall>b bs x. data_loader m e True (idxs 0) (rnds 0) = Inr (b # bs) \<and> image_loader bk b = Inr x
          \<longrightarrow> train bk m e idxs rnds w = Inl AttributeError)
     \<and> (\<forall>s emb idx rnd. test (m\<lparr>solver := s\<rparr>) e emb idx rnd = test m e emb idx rnd)"
proof -
  obtain m where m: "Manager_init (Some ''all'') = Inr m" using manager_total [of "Some ''all''"] by auto
  have ep: "epoch m = 1" and so: "solver m = None"
    using manager_solver [OF m] by (auto split: option.splits)
  have 1: "isl (train bk m e idxs rnds w)"
  proof -
    obtain err where "train_epoch bk m e (idxs 0) (rnds 0) (w, []) = Inl err"
      using train_epoch_no_solver [OF so, of bk e "idxs 0" "rnds 0" w "[]"]
      by (cases "train_epoch bk m e (idxs 0) (rnds 0) (w, [])") auto
    then show ?thesis unfolding train_one_epoch [OF ep] by (simp add: bind_err_def)
  qed
  have 2: "\<forall>b bs x. data_loader m e True (idxs 0) (rnds 0) = Inr (b # bs) \<and> image_loader bk b = Inr x
          \<longrightarrow> train bk m e idxs rnds w = Inl AttributeError"
  proof (intro allI impI)
    fix b bs x
    assume h: "data_loader m e True (idxs 0) (rnds 0) = Inr (b # bs) \<and> image_loader bk b = Inr x"
    have "train_epoch bk m e (idxs 0) (rnds 0) (w, []) = Inl AttributeError"
      using train_epoch_attribute_error [OF so, of e "idxs 0" "rnds 0" b bs bk x w "[]"] h by simp
    then show "train bk m e idxs rnds w = Inl AttributeError"
      unfolding train_one_epoch [OF ep] by (simp add: bind_err_def)
  qed
  have 3: "\<forall>s emb idx rnd. test (m\<lparr>solver := s\<rparr>) e emb idx rnd = test m e emb idx rnd"
    using test_ignores_solver by blast
  show ?thesis by (intro exI [of _ m] conjI) (rule m so 1 2 3)+
qed

theorem train_fails_when_frozen_witness:
  "\<exists>m. Manager_init (Some ''all'') = Inr m
     \<and> train demo_backend m (demo_env 1) (epoch_perm 1) epoch_draws () = Inl AttributeError"
proof -
  obtain m where m: "Manager_init (Some ''all'') = Inr m"
    and t: "\<forall>b bs x. data_loader m (demo_env 1) True (epoch_perm 1 0) (epoch_draws 0) = Inr (b # bs)
              \<and> image_loader demo_backend b = Inr x
          \<longrightarrow> train demo_backend m (demo_env 1) (epoch_perm 1) epoch_draws () = Inl AttributeError"
    using train_fails_when_frozen [of demo_backend "demo_env 1" "epoch_perm 1" epoch_draws "()"]
    by blast
  have bsz: "batch_size m = 1" using manager_solver [OF m] by simp
  have d: "data_loader m (demo_env 1) True (epoch_perm 1 0) (epoch_draws 0)
     = Inr [([root_path @ imgs_path @ ''a.jpg''], [root_path @ imgs_path @ ''c3.jpg''],
           [root_path @ imgs_path @ ''c0.jpg''])]"
    using demo_load by (simp add: data_loader_def bsz epoch_perm_def epoch_draws_def)
  have i: "image_loader demo_backend ([root_path @ imgs_path @ ''a.jpg''], [root_path @ imgs_path @ ''c3.jpg''],
           [root_path @ imgs_path @ ''c0.jpg'']) = Inr ()"
    by (simp add: demo_backend_def)
  show ?thesis using m t d i by blast
qed

end
